theory Spec2Isabelle
  imports Complex_Main "HOL-Library.Word" "HOL-Library.Log_Nat"
begin

section \<open>minio2rustfs: the migration engine, embedded\<close>

text \<open>
  Conventions of the embedding.
  \<^item> Go's \<open>int64\<close> is \<open>64 word\<close>: \<open>+\<close>, \<open>-\<close> and \<open>*\<close> wrap, \<open>sint\<close> reads the
    signed value, \<open><s\<close> and \<open>\<le>s\<close> are the signed comparisons.
  \<^item> Go's \<open>int\<close> (loop counters, \<open>Retries\<close>, \<open>Attempts\<close>) is \<open>int\<close>.
  \<^item> A Go \<open>error\<close> is the string that \<open>err.Error()\<close> returns; a function that returns
    \<open>error\<close> returns \<open>string option\<close> (\<open>None\<close> is \<open>nil\<close>), one that returns \<open>(T, error)\<close>
    returns \<open>string + T\<close> (\<open>Inl\<close> the error).
  \<^item> \<open>time.Time\<close> is an \<open>int\<close> (nanoseconds).
\<close>

type_synonym int64 = "64 word"

subsection \<open>Package strings\<close>

fun HasPrefix :: "string \<Rightarrow> string \<Rightarrow> bool" where
  "HasPrefix s [] = True"
| "HasPrefix [] (p # ps) = False"
| "HasPrefix (c # cs) (p # ps) = (c = p \<and> HasPrefix cs ps)"

fun Contains :: "string \<Rightarrow> string \<Rightarrow> bool" where
  "Contains [] substr = (substr = [])"
| "Contains (c # cs) substr = (HasPrefix (c # cs) substr \<or> Contains cs substr)"

subsection \<open>internal/progress/tracker.go\<close>

text \<open>
  \<open>Status\<close> with its integer and time fields. \<open>CurrentSpeed\<close>, \<open>AverageSpeed\<close> and \<open>ETA\<close>
  are floating-point values that \<open>updateSpeed\<close> derives from the fields below and the
  clock; no counter is computed from them, and they are left out.
\<close>

record Status =
  TotalObjects :: int64
  ProcessedObjects :: int64
  SuccessObjects :: int64
  FailedObjects :: int64
  SkippedObjects :: int64
  TotalBytes :: int64
  ProcessedBytes :: int64
  StartTime :: int
  LastUpdateTime :: int

record speedSample =
  timestamp :: int
  bytes :: int64

record Tracker =
  status :: Status
  speedSamples :: "speedSample list"
  maxSamples :: int

definition NewTracker :: "int \<Rightarrow> Tracker" where
  "NewTracker now =
     \<lparr>status = \<lparr>TotalObjects = 0, ProcessedObjects = 0, SuccessObjects = 0,
                 FailedObjects = 0, SkippedObjects = 0, TotalBytes = 0, ProcessedBytes = 0,
                 StartTime = now, LastUpdateTime = now\<rparr>,
      speedSamples = [], maxSamples = 60\<rparr>"

definition SetTotal :: "int64 \<Rightarrow> int64 \<Rightarrow> Tracker \<Rightarrow> Tracker" where
  "SetTotal objects n t = t\<lparr>status := (status t)\<lparr>TotalObjects := objects, TotalBytes := n\<rparr>\<rparr>"

text \<open>\<open>updateSpeed\<close>: \<open>now\<close> is the value of \<open>time.Now()\<close>.\<close>

definition updateSpeed :: "int \<Rightarrow> int64 \<Rightarrow> Tracker \<Rightarrow> Tracker" where
  "updateSpeed now n t =
     (let samples = speedSamples t @ [\<lparr>timestamp = now, bytes = n\<rparr>];
          samples' = (if int (length samples) > maxSamples t then tl samples else samples)
      in t\<lparr>speedSamples := samples', status := (status t)\<lparr>LastUpdateTime := now\<rparr>\<rparr>)"

definition AddSuccess :: "int \<Rightarrow> int64 \<Rightarrow> Tracker \<Rightarrow> Tracker" where
  "AddSuccess now n t =
     updateSpeed now n
       (t\<lparr>status := (status t)\<lparr>SuccessObjects := SuccessObjects (status t) + 1,
                                 ProcessedObjects := ProcessedObjects (status t) + 1,
                                 ProcessedBytes := ProcessedBytes (status t) + n\<rparr>\<rparr>)"

definition AddFailed :: "Tracker \<Rightarrow> Tracker" where
  "AddFailed t =
     t\<lparr>status := (status t)\<lparr>FailedObjects := FailedObjects (status t) + 1,
                               ProcessedObjects := ProcessedObjects (status t) + 1\<rparr>\<rparr>"

definition AddSkipped :: "int \<Rightarrow> int64 \<Rightarrow> Tracker \<Rightarrow> Tracker" where
  "AddSkipped now n t =
     updateSpeed now n
       (t\<lparr>status := (status t)\<lparr>SkippedObjects := SkippedObjects (status t) + 1,
                                 ProcessedObjects := ProcessedObjects (status t) + 1,
                                 ProcessedBytes := ProcessedBytes (status t) + n\<rparr>\<rparr>)"

definition GetStatus :: "Tracker \<Rightarrow> Status" where
  "GetStatus t = status t"

text \<open>The conservation invariant of the counters, in \<open>int64\<close> arithmetic.\<close>

definition conserved :: "Tracker \<Rightarrow> bool" where
  "conserved t \<longleftrightarrow>
     ProcessedObjects (status t) =
       SuccessObjects (status t) + FailedObjects (status t) + SkippedObjects (status t)"

subsection \<open>internal/checkpoint: records\<close>

text \<open>\<open>TaskStatus\<close> is a string type with four named values.\<close>

type_synonym TaskStatus = string

definition StatusPending :: TaskStatus where "StatusPending = ''pending''"
definition StatusInProgress :: TaskStatus where "StatusInProgress = ''in_progress''"
definition StatusCompleted :: TaskStatus where "StatusCompleted = ''completed''"
definition StatusFailed :: TaskStatus where "StatusFailed = ''failed''"

record TaskRecord =
  rBucket :: string
  rKey :: string
  rSize :: int64
  rETag :: string
  rStatus :: TaskStatus
  Attempts :: int
  LastError :: string
  UpdatedAt :: int

subsection \<open>internal/checkpoint/store.go\<close>

text \<open>
  The handle of \<open>database/sql\<close> that the store wraps. The library is not part of the
  repository; what the store relies on is modelled: a closed handle answers every
  operation with \<open>sql: database is closed\<close>, an open one succeeds unless the engine
  reports an error. \<open>db_faults\<close> is the script of the engine's answers to the coming
  operations (\<open>None\<close> for success, an empty script for no more errors), so that busy and
  I/O errors can be injected. \<open>tasks_table\<close> holds the rows of table \<open>tasks\<close>.
\<close>

record sql_DB =
  db_closed :: bool
  db_faults :: "string option list"
  tasks_table :: "TaskRecord list"

definition db_op :: "sql_DB \<Rightarrow> string option \<times> sql_DB" where
  "db_op d =
     (if db_closed d then (Some ''sql: database is closed'', d)
      else case db_faults d of
             [] \<Rightarrow> (None, d)
           | f # fs \<Rightarrow> (f, d\<lparr>db_faults := fs\<rparr>))"

definition db_Close :: "sql_DB \<Rightarrow> string option \<times> sql_DB" where
  "db_Close d =
     (if db_closed d then (None, d)
      else case db_faults d of
             [] \<Rightarrow> (None, d\<lparr>db_closed := True\<rparr>)
           | f # fs \<Rightarrow> (f, d\<lparr>db_closed := True, db_faults := fs\<rparr>))"

record SQLiteStore =
  db :: sql_DB
  closed :: bool

definition isSQLiteBusyError :: "string \<Rightarrow> bool" where
  "isSQLiteBusyError errorStr \<longleftrightarrow>
     Contains errorStr ''database is locked'' \<or>
     Contains errorStr ''SQLITE_BUSY'' \<or>
     Contains errorStr ''database is closed''"

definition maxRetries :: nat where "maxRetries = 10"

text \<open>
  \<open>retryOnBusy\<close>: the loop over \<open>attempt\<close>. The operation returns its error or the value
  it stored in the caller's variable; \<open>dflt\<close> is that variable's initial value, returned
  by the \<open>return nil\<close> after the loop. The sleeps between attempts are not modelled.
\<close>

function retryOnBusy_from ::
  "'a \<Rightarrow> (sql_DB \<Rightarrow> (string + 'a) \<times> sql_DB) \<Rightarrow> nat \<Rightarrow> sql_DB \<Rightarrow> (string + 'a) \<times> sql_DB" where
  "retryOnBusy_from dflt operation attempt d =
     (if attempt < maxRetries then
        (let (r, d') = operation d in
         if isl r \<and> isSQLiteBusyError (projl r) \<and> attempt < maxRetries - 1
         then retryOnBusy_from dflt operation (attempt + 1) d'
         else (r, d'))
      else (Inr dflt, d))"
  by pat_completeness auto
termination
  by (relation "measure (\<lambda>(dflt, operation, attempt, d). maxRetries - attempt)") auto

definition retryOnBusy ::
  "'a \<Rightarrow> (sql_DB \<Rightarrow> (string + 'a) \<times> sql_DB) \<Rightarrow> sql_DB \<Rightarrow> (string + 'a) \<times> sql_DB" where
  "retryOnBusy dflt operation d = retryOnBusy_from dflt operation 0 d"

definition getTaskInternal :: "string \<Rightarrow> string \<Rightarrow> sql_DB \<Rightarrow> (string + TaskRecord option) \<times> sql_DB" where
  "getTaskInternal bucket key d =
     (case db_op d of
        (Some e, d') \<Rightarrow> (Inl e, d')
      | (None, d') \<Rightarrow>
          (Inr (find (\<lambda>r. rBucket r = bucket \<and> rKey r = key) (tasks_table d')), d'))"

definition GetTask :: "string \<Rightarrow> string \<Rightarrow> SQLiteStore \<Rightarrow> (string + TaskRecord option) \<times> SQLiteStore" where
  "GetTask bucket key s =
     (if closed s then (Inl ''database store is closed'', s)
      else case db_op (db s) of
             (Some e, d') \<Rightarrow> (Inl (''database connection is not available: '' @ e), s\<lparr>db := d'\<rparr>)
           | (None, d') \<Rightarrow>
               (let (r, d'') = retryOnBusy None (getTaskInternal bucket key) d'
                in (r, s\<lparr>db := d''\<rparr>)))"

text \<open>The upsert on the primary key \<open>(bucket, key)\<close>.\<close>

fun upsert :: "TaskRecord \<Rightarrow> TaskRecord list \<Rightarrow> TaskRecord list" where
  "upsert r [] = [r]"
| "upsert r (x # xs) =
     (if rBucket x = rBucket r \<and> rKey x = rKey r then r # xs else x # upsert r xs)"

text \<open>
  \<open>saveTaskWithTransaction\<close>: \<open>Begin\<close>, \<open>Exec\<close> and \<open>Commit\<close> are three operations on the
  handle; the deferred \<open>Rollback\<close> leaves the table as it was.
\<close>

definition saveTaskWithTransaction :: "int \<Rightarrow> TaskRecord \<Rightarrow> sql_DB \<Rightarrow> (string + unit) \<times> sql_DB" where
  "saveTaskWithTransaction now record d =
     (let record' = record\<lparr>UpdatedAt := now\<rparr> in
      case db_op d of
        (Some e, d1) \<Rightarrow> (Inl (''failed to begin transaction: '' @ e), d1)
      | (None, d1) \<Rightarrow>
          (case db_op d1 of
             (Some e, d2) \<Rightarrow> (Inl (''failed to execute insert: '' @ e), d2)
           | (None, d2) \<Rightarrow>
               (case db_op d2 of
                  (Some e, d3) \<Rightarrow> (Inl e, d3)
                | (None, d3) \<Rightarrow> (Inr (), d3\<lparr>tasks_table := upsert record' (tasks_table d3)\<rparr>))))"

definition SaveTask :: "int \<Rightarrow> TaskRecord \<Rightarrow> SQLiteStore \<Rightarrow> string option \<times> SQLiteStore" where
  "SaveTask now record s =
     (if closed s then (Some ''database store is closed'', s)
      else case db_op (db s) of
             (Some e, d') \<Rightarrow> (Some (''database connection is not available: '' @ e), s\<lparr>db := d'\<rparr>)
           | (None, d') \<Rightarrow>
               (let (r, d'') = retryOnBusy () (saveTaskWithTransaction now record) d'
                in (case r of Inl e \<Rightarrow> Some e | Inr u \<Rightarrow> None, s\<lparr>db := d''\<rparr>)))"

text \<open>
  \<open>listTasksByStatus\<close>: \<open>ORDER BY updated_at ASC\<close>; rows with equal \<open>updated_at\<close> keep the
  table's order here (SQL leaves their order open).
\<close>

definition listTasksByStatus :: "TaskStatus \<Rightarrow> SQLiteStore \<Rightarrow> (string + TaskRecord list) \<times> SQLiteStore" where
  "listTasksByStatus st s =
     (case db_op (db s) of
        (Some e, d') \<Rightarrow> (Inl e, s\<lparr>db := d'\<rparr>)
      | (None, d') \<Rightarrow>
          (Inr (sort_key UpdatedAt (filter (\<lambda>r. rStatus r = st) (tasks_table d'))), s\<lparr>db := d'\<rparr>))"

definition ListPendingTasks :: "SQLiteStore \<Rightarrow> (string + TaskRecord list) \<times> SQLiteStore" where
  "ListPendingTasks s = listTasksByStatus StatusPending s"

definition ListFailedTasks :: "SQLiteStore \<Rightarrow> (string + TaskRecord list) \<times> SQLiteStore" where
  "ListFailedTasks s = listTasksByStatus StatusFailed s"

definition Close :: "SQLiteStore \<Rightarrow> string option \<times> SQLiteStore" where
  "Close s = (let (e, d') = db_Close (db s) in (e, s\<lparr>closed := True, db := d'\<rparr>))"

subsection \<open>internal/worker/task.go and internal/storage/client.go: the data\<close>

text \<open>\<open>Metadata\<close> (a Go map the engine only passes on) is the list of its entries.\<close>

record Task =
  Bucket :: string
  Key :: string
  Size :: int64
  ETag :: string
  ContentType :: string
  Metadata :: "(string \<times> string) list"

record Config =
  MultipartThreshold :: int64
  PartSize :: int64
  Retries :: int
  RetryBackoffMs :: int
  SkipExisting :: bool

record ObjectInfo =
  oKey :: string
  oSize :: int64
  oETag :: string
  oLastModified :: int
  oContentType :: string
  oMetadata :: "(string \<times> string) list"

record PutOptions =
  pContentType :: string
  pMetadata :: "(string \<times> string) list"

record CompletedPart =
  PartNumber :: int
  cETag :: string

text \<open>
  The stream of a source object (\<open>storage.Object\<close>), as far as the engine can observe
  it: the number of bytes it still delivers, and how its \<open>Read\<close> ends after them: \<open>None\<close>
  for a clean end of file (\<open>io.EOF\<close>), \<open>Some err\<close> for a read error \<open>err\<close>. A read error
  can be \<open>io.ErrUnexpectedEOF\<close> itself: it is what the body of an HTTP response returns
  when the connection is cut before the announced length. The bytes themselves are
  opaque to the engine and are not modelled.
\<close>

datatype io_error = io_EOF | io_ErrUnexpectedEOF | reader_error string

fun io_Error :: "io_error \<Rightarrow> string" where
  "io_Error io_EOF = ''EOF''"
| "io_Error io_ErrUnexpectedEOF = ''unexpected EOF''"
| "io_Error (reader_error e) = e"

record Object =
  remaining :: nat
  read_error :: "io_error option"

text \<open>
  \<open>io.ReadFull(reader, buf)\<close> with \<open>len(buf) = k\<close>: the bytes read, the error and the
  stream afterwards. It fills the buffer when the stream has enough bytes; otherwise it
  returns what there was, with the error of the stream, an \<open>io.EOF\<close> after some bytes
  being turned into \<open>io.ErrUnexpectedEOF\<close>.
\<close>

definition ReadFull :: "Object \<Rightarrow> nat \<Rightarrow> nat \<times> io_error option \<times> Object" where
  "ReadFull rd k =
     (if k \<le> remaining rd then (k, None, rd\<lparr>remaining := remaining rd - k\<rparr>)
      else
        (let err = (case read_error rd of None \<Rightarrow> io_EOF | Some err \<Rightarrow> err)
         in (remaining rd,
             Some (if 0 < remaining rd \<and> err = io_EOF then io_ErrUnexpectedEOF else err),
             rd\<lparr>remaining := 0\<rparr>)))"

subsection \<open>The collaborators of the task processor\<close>

text \<open>
  Every call that the processor makes on a collaborator (checkpoint store, source and
  destination clients, Prometheus registry, \<open>time.Sleep\<close>) is recorded, in order.
\<close>

datatype call =
    Checkpoint_GetTask string string
  | Checkpoint_SaveTask TaskRecord
  | Dst_HeadObject string string
  | Src_GetObject string string
  | Src_Close
  | Dst_PutObject string string int64 PutOptions
  | Dst_NewMultipartUpload string string PutOptions
  | Dst_UploadPart string string string int int64
  | Dst_CompleteMultipartUpload string string string "CompletedPart list"
  | Dst_AbortMultipartUpload string string string
  | Metrics_objectsTotal_Inc string
  | Metrics_bytesTotal_Add int64
  | Metrics_duration_Observe int
  | Time_Sleep int64

datatype zap_level = DebugLevel | InfoLevel | WarnLevel | ErrorLevel

datatype zap_field =
    zap_String string string
  | zap_Int string int
  | zap_Int64 string int64
  | zap_Duration string int
  | zap_Error "string option"

datatype log_entry = Log zap_level string "zap_field list"

text \<open>
  The answers of the collaborators. Each answer is a function of the calls made so far,
  the call being answered last, so a collaborator may behave in any deterministic way
  (fail the third call, fail part 2 only, ...). \<open>strings_ToLower\<close> is Go's Unicode-aware
  \<open>strings.ToLower\<close>.
\<close>

record env =
  checkpoint_GetTask :: "call list \<Rightarrow> string + TaskRecord option"
  checkpoint_SaveTask :: "call list \<Rightarrow> string option"
  dst_HeadObject :: "call list \<Rightarrow> string + ObjectInfo"
  src_GetObject :: "call list \<Rightarrow> string + Object"
  dst_PutObject :: "call list \<Rightarrow> string option"
  dst_NewMultipartUpload :: "call list \<Rightarrow> string + string"
  dst_UploadPart :: "call list \<Rightarrow> string + string"
  dst_CompleteMultipartUpload :: "call list \<Rightarrow> string option"
  time_Now :: "call list \<Rightarrow> int"
  strings_ToLower :: "string \<Rightarrow> string"

text \<open>What a run changes: the calls made, the log written, the progress tracker.\<close>

record world =
  calls :: "call list"
  logs :: "log_entry list"
  tracker :: Tracker

definition emit :: "call \<Rightarrow> world \<Rightarrow> world" where
  "emit c w = w\<lparr>calls := calls w @ [c]\<rparr>"

definition logger :: "zap_level \<Rightarrow> string \<Rightarrow> zap_field list \<Rightarrow> world \<Rightarrow> world" where
  "logger lvl msg fs w = w\<lparr>logs := logs w @ [Log lvl msg fs]\<rparr>"

text \<open>A function either returns or panics; the world at the panic is kept.\<close>

datatype 'a result = Return 'a | Panic string world

subsection \<open>internal/metrics: the collector\<close>

definition IncSuccessWithBytes :: "env \<Rightarrow> int64 \<Rightarrow> world \<Rightarrow> world" where
  "IncSuccessWithBytes e n w =
     (let w1 = emit (Metrics_objectsTotal_Inc ''success'') w
      in w1\<lparr>tracker := AddSuccess (time_Now e (calls w1)) n (tracker w1)\<rparr>)"

definition IncFailed :: "env \<Rightarrow> world \<Rightarrow> world" where
  "IncFailed e w =
     (let w1 = emit (Metrics_objectsTotal_Inc ''failed'') w
      in w1\<lparr>tracker := AddFailed (tracker w1)\<rparr>)"

definition IncSkippedWithBytes :: "env \<Rightarrow> int64 \<Rightarrow> world \<Rightarrow> world" where
  "IncSkippedWithBytes e n w =
     (let w1 = emit (Metrics_objectsTotal_Inc ''skipped'') w
      in w1\<lparr>tracker := AddSkipped (time_Now e (calls w1)) n (tracker w1)\<rparr>)"

text \<open>\<open>AddBytes\<close>: Prometheus' \<open>Counter.Add\<close> panics on a negative value.\<close>

definition AddBytes :: "int64 \<Rightarrow> world \<Rightarrow> world result" where
  "AddBytes n w =
     (if n <s 0 then Panic ''counter cannot decrease in value'' (emit (Metrics_bytesTotal_Add n) w)
      else Return (emit (Metrics_bytesTotal_Add n) w))"

definition ObserveDuration :: "int \<Rightarrow> world \<Rightarrow> world" where
  "ObserveDuration d w = emit (Metrics_duration_Observe d) w"

subsection \<open>Floating point and formatting used by the processor\<close>

text \<open>
  \<open>float64\<close>: the IEEE 754 binary64 value nearest to a rational (ties to even), for
  magnitudes below \<open>2\<^sup>1\<^sup>0\<^sup>2\<^sup>4\<close>; conversions of \<open>int64\<close> values and their quotients by
  nonzero \<open>int64\<close> values stay in that range. \<open>exponent x\<close> is \<open>\<lfloor>log\<^sub>2 x\<rfloor>\<close> for \<open>x > 0\<close>.
\<close>

definition round_half_even :: "rat \<Rightarrow> int" where
  "round_half_even x =
     (let f = \<lfloor>x\<rfloor>; d = x - of_int f
      in if d < 1 / 2 then f else if 1 / 2 < d then f + 1 else if even f then f else f + 1)"

definition exponent :: "rat \<Rightarrow> int" where
  "exponent x =
     (let (a, b) = quotient_of x;
          d = int (floorlog 2 (nat a)) - int (floorlog 2 (nat b))
      in if 2 powi d \<le> x then d else d - 1)"

definition float64 :: "rat \<Rightarrow> rat" where
  "float64 x =
     (if x = 0 then 0
      else let e = max (exponent \<bar>x\<bar>) (- 1022); u = 2 powi (e - 52)
           in of_int (round_half_even (x / u)) * u)"

text \<open>\<open>strconv\<close>-style decimal rendering, as \<open>%d\<close> prints it.\<close>

fun Itoa_nat :: "nat \<Rightarrow> string" where
  "Itoa_nat n =
     (if n < 10 then [''0123456789'' ! n] else Itoa_nat (n div 10) @ [''0123456789'' ! (n mod 10)])"

declare Itoa_nat.simps [simp del]

definition Itoa :: "int \<Rightarrow> string" where
  "Itoa i = (if i < 0 then CHR ''-'' # Itoa_nat (nat (- i)) else Itoa_nat (nat i))"

subsection \<open>The task processor\<close>

definition objectExistsAndMatches :: "env \<Rightarrow> Task \<Rightarrow> world \<Rightarrow> bool \<times> world" where
  "objectExistsAndMatches e task w =
     (let w1 = emit (Dst_HeadObject (Bucket task) (Key task)) w
      in case dst_HeadObject e (calls w1) of
           Inl err \<Rightarrow> (False, w1)
         | Inr info \<Rightarrow> (oSize info = Size task \<and> oETag info = ETag task, w1))"

text \<open>
  The record literal of \<open>markCompleted\<close>: it sets five fields; \<open>Attempts\<close>,
  \<open>LastError\<close> and \<open>UpdatedAt\<close> keep Go's zero values.
\<close>

definition completedRecord :: "Task \<Rightarrow> TaskRecord" where
  "completedRecord task =
     \<lparr>rBucket = Bucket task, rKey = Key task, rSize = Size task, rETag = ETag task,
      rStatus = StatusCompleted, Attempts = 0, LastError = [], UpdatedAt = 0\<rparr>"

definition markCompleted :: "env \<Rightarrow> Task \<Rightarrow> world \<Rightarrow> world" where
  "markCompleted e task w =
     (let record = completedRecord task;
          w1 = emit (Checkpoint_SaveTask record) w
      in case checkpoint_SaveTask e (calls w1) of
           None \<Rightarrow> w1
         | Some err \<Rightarrow>
             logger ErrorLevel ''Failed to save completed task''
               [zap_String ''bucket'' (Bucket task), zap_String ''key'' (Key task),
                zap_Error (Some err)] w1)"

definition nil_dereference :: string where
  "nil_dereference = ''runtime error: invalid memory address or nil pointer dereference''"

text \<open>The record literal of \<open>markFailed\<close>.\<close>

definition failedRecord :: "Task \<Rightarrow> string \<Rightarrow> TaskRecord" where
  "failedRecord task msg =
     \<lparr>rBucket = Bucket task, rKey = Key task, rSize = Size task, rETag = ETag task,
      rStatus = StatusFailed, Attempts = 0, LastError = msg, UpdatedAt = 0\<rparr>"

text \<open>
  \<open>markFailed\<close>: \<open>err.Error()\<close> is evaluated while the record is built; on a nil \<open>err\<close>
  that is a nil dereference, before any call is made.
\<close>

definition markFailed :: "env \<Rightarrow> Task \<Rightarrow> string option \<Rightarrow> world \<Rightarrow> world result" where
  "markFailed e task err w =
     (case err of
        None \<Rightarrow> Panic nil_dereference w
      | Some msg \<Rightarrow>
          (let record = failedRecord task msg;
               w1 = emit (Checkpoint_SaveTask record) w
           in case checkpoint_SaveTask e (calls w1) of
                None \<Rightarrow> Return w1
              | Some saveErr \<Rightarrow>
                  (if Contains saveErr ''database is closed''
                   then Return (logger WarnLevel ''Cannot save failed task - database is closed''
                          [zap_String ''bucket'' (Bucket task), zap_String ''key'' (Key task),
                           zap_String ''original_error'' msg] w1)
                   else Return (logger ErrorLevel ''Failed to save failed task''
                          [zap_String ''bucket'' (Bucket task), zap_String ''key'' (Key task),
                           zap_Error (Some saveErr)] w1))))"

definition isRetriableError :: "env \<Rightarrow> string option \<Rightarrow> bool" where
  "isRetriableError e err =
     (case err of
        None \<Rightarrow> False
      | Some msg \<Rightarrow>
          (let errStr = strings_ToLower e msg
           in Contains errStr ''timeout'' \<or>
              Contains errStr ''connection'' \<or>
              Contains errStr ''temporary'' \<or>
              Contains errStr ''network'' \<or>
              Contains errStr ''dns'' \<or>
              Contains errStr ''500'' \<or>
              Contains errStr ''502'' \<or>
              Contains errStr ''503'' \<or>
              Contains errStr ''504'' \<or>
              Contains errStr ''internal server error'' \<or>
              Contains errStr ''bad gateway'' \<or>
              Contains errStr ''service unavailable'' \<or>
              Contains errStr ''gateway timeout''))"

text \<open>
  \<open>calculateBackoff\<close>, for \<open>1 \<le> attempt \<le> 63\<close>, where \<open>math.Pow(2, attempt-1)\<close> is an
  exact power of two that fits \<open>int64\<close>; the products wrap as \<open>time.Duration\<close> does.
\<close>

definition calculateBackoff :: "Config \<Rightarrow> int \<Rightarrow> int64" where
  "calculateBackoff cfg attempt =
     (of_int (RetryBackoffMs cfg) * 1000000) * of_int (2 ^ nat (attempt - 1))"

definition putOptions :: "Task \<Rightarrow> PutOptions" where
  "putOptions task =
     \<lparr>pContentType = (if ContentType task = [] then ''application/octet-stream''
                       else ContentType task),
      pMetadata = Metadata task\<rparr>"

definition uploadSingle :: "env \<Rightarrow> Task \<Rightarrow> world \<Rightarrow> string option \<times> world" where
  "uploadSingle e task w =
     (let w1 = emit (Dst_PutObject (Bucket task) (Key task) (Size task) (putOptions task)) w
      in (dst_PutObject e (calls w1), w1))"

text \<open>
  \<open>partCount\<close>: \<open>int(math.Ceil(float64(task.Size) / float64(p.config.PartSize)))\<close>. For
  \<open>PartSize = 0\<close>, which \<open>Config.validate\<close> rejects, the quotient is not a number and
  the conversion is implementation-defined; nothing is claimed there.
\<close>

definition partCount :: "Config \<Rightarrow> Task \<Rightarrow> int" where
  "partCount cfg task =
     \<lceil>float64 (float64 (of_int (sint (Size task))) / float64 (of_int (sint (PartSize cfg))))\<rceil>"

text \<open>The size of part \<open>partNum\<close>, in \<open>int64\<close> arithmetic.\<close>

definition partSizeOf :: "Config \<Rightarrow> Task \<Rightarrow> int \<Rightarrow> int64" where
  "partSizeOf cfg task partNum =
     (if Size task <s of_int (partNum - 1) * PartSize cfg + PartSize cfg
      then Size task - of_int (partNum - 1) * PartSize cfg
      else PartSize cfg)"

text \<open>
  The loop over the parts of \<open>uploadMultipart\<close>, from \<open>partNum\<close> on. It returns the error
  of the failing part (after the abort) or the list of completed parts.
\<close>

function uploadParts ::
  "env \<Rightarrow> Config \<Rightarrow> Task \<Rightarrow> string \<Rightarrow> int \<Rightarrow> int \<Rightarrow> CompletedPart list \<Rightarrow> Object \<Rightarrow> world
     \<Rightarrow> ((string + CompletedPart list) \<times> world) result" where
  "uploadParts e cfg task uploadID pc partNum parts rd w =
     (if partNum \<le> pc then
        (let partSize = partSizeOf cfg task partNum in
         if partSize <s 0 then Panic ''runtime error: makeslice: len out of range'' w
         else
           (case ReadFull rd (nat (sint partSize)) of
              (n, rerr, rd') \<Rightarrow>
                (if rerr \<noteq> None \<and> rerr \<noteq> Some io_ErrUnexpectedEOF then
                   Return (Inl (''failed to read part '' @ Itoa partNum @ '': '' @ io_Error (the rerr)),
                           emit (Dst_AbortMultipartUpload (Bucket task) (Key task) uploadID) w)
                 else
                   (let w1 = emit (Dst_UploadPart (Bucket task) (Key task) uploadID partNum (of_nat n)) w
                    in case dst_UploadPart e (calls w1) of
                         Inl err \<Rightarrow>
                           Return (Inl (''failed to upload part '' @ Itoa partNum @ '': '' @ err),
                                   emit (Dst_AbortMultipartUpload (Bucket task) (Key task) uploadID) w1)
                       | Inr etag \<Rightarrow>
                           uploadParts e cfg task uploadID pc (partNum + 1)
                             (parts @ [\<lparr>PartNumber = partNum, cETag = etag\<rparr>]) rd' w1))))
      else Return (Inr parts, w))"
  by pat_completeness auto
termination
  by (relation "measure (\<lambda>(e, cfg, task, uploadID, pc, partNum, parts, rd, w). nat (pc + 1 - partNum))")
    auto

declare uploadParts.simps [simp del]

text \<open>
  \<open>uploadMultipart\<close>. \<open>make([]storage.CompletedPart, 0, partCount)\<close> panics on a negative
  capacity, after the upload was initiated.
\<close>

definition uploadMultipart :: "env \<Rightarrow> Config \<Rightarrow> Task \<Rightarrow> Object \<Rightarrow> world \<Rightarrow> (string option \<times> world) result" where
  "uploadMultipart e cfg task rd w =
     (let w1 = emit (Dst_NewMultipartUpload (Bucket task) (Key task) (putOptions task)) w
      in case dst_NewMultipartUpload e (calls w1) of
           Inl err \<Rightarrow> Return (Some (''failed to initiate multipart upload: '' @ err), w1)
         | Inr uploadID \<Rightarrow>
             (if partCount cfg task < 0 then Panic ''runtime error: makeslice: cap out of range'' w1
              else
                (case uploadParts e cfg task uploadID (partCount cfg task) 1 [] rd w1 of
                   Panic m w2 \<Rightarrow> Panic m w2
                 | Return (Inl err, w2) \<Rightarrow> Return (Some err, w2)
                 | Return (Inr parts, w2) \<Rightarrow>
                     (let w3 = emit (Dst_CompleteMultipartUpload (Bucket task) (Key task) uploadID parts) w2
                      in Return (dst_CompleteMultipartUpload e (calls w3), w3)))))"

text \<open>\<open>processTask\<close>; the deferred \<open>srcObj.Close()\<close> runs on every way out.\<close>

definition processTask :: "env \<Rightarrow> Config \<Rightarrow> Task \<Rightarrow> world \<Rightarrow> (string option \<times> world) result" where
  "processTask e cfg task w =
     (let w1 = emit (Src_GetObject (Bucket task) (Key task)) w
      in case src_GetObject e (calls w1) of
           Inl err \<Rightarrow> Return (Some (''failed to get source object: '' @ err), w1)
         | Inr srcObj \<Rightarrow>
             (if Size task <s MultipartThreshold cfg then
                (let (r, w2) = uploadSingle e task w1 in Return (r, emit Src_Close w2))
              else
                (case uploadMultipart e cfg task srcObj w1 of
                   Panic m w2 \<Rightarrow> Panic m (emit Src_Close w2)
                 | Return (r, w2) \<Rightarrow> Return (r, emit Src_Close w2))))"

text \<open>Lines 55 to 65 of \<open>Process\<close>: the attempt succeeded.\<close>

definition finishSuccess :: "env \<Rightarrow> Task \<Rightarrow> int \<Rightarrow> world \<Rightarrow> world result" where
  "finishSuccess e task startTime w =
     (let w1 = markCompleted e task w;
          w2 = IncSuccessWithBytes e (Size task) w1
      in case AddBytes (Size task) w2 of
           Panic m w3 \<Rightarrow> Panic m w3
         | Return w3 \<Rightarrow>
             (let w4 = ObserveDuration (time_Now e (calls w3) - startTime) w3
              in Return (logger InfoLevel ''Task completed successfully''
                           [zap_String ''key'' (Key task), zap_Int64 ''size'' (Size task),
                            zap_Duration ''duration'' (time_Now e (calls w4) - startTime)] w4)))"

text \<open>Lines 85 to 91 of \<open>Process\<close>: after the loop.\<close>

definition finishFailed :: "env \<Rightarrow> Task \<Rightarrow> string option \<Rightarrow> world \<Rightarrow> world result" where
  "finishFailed e task lastErr w =
     (case markFailed e task lastErr w of
        Panic m w1 \<Rightarrow> Panic m w1
      | Return w1 \<Rightarrow>
          Return (logger ErrorLevel ''Task failed after all retries''
                    [zap_String ''key'' (Key task), zap_Error lastErr] (IncFailed e w1)))"

text \<open>The retry loop of \<open>Process\<close>, from \<open>attempt\<close> on; \<open>break\<close> leaves it for \<open>finishFailed\<close>.\<close>

function retryLoop ::
  "env \<Rightarrow> Config \<Rightarrow> Task \<Rightarrow> int \<Rightarrow> int \<Rightarrow> string option \<Rightarrow> world \<Rightarrow> world result" where
  "retryLoop e cfg task startTime attempt lastErr w =
     (if attempt \<le> Retries cfg then
        (case processTask e cfg task w of
           Panic m w1 \<Rightarrow> Panic m w1
         | Return (None, w1) \<Rightarrow> finishSuccess e task startTime w1
         | Return (Some err, w1) \<Rightarrow>
             (let w2 = logger WarnLevel ''Task attempt failed''
                         [zap_String ''key'' (Key task), zap_Int ''attempt'' attempt,
                          zap_Error (Some err)] w1
              in if \<not> isRetriableError e (Some err) then finishFailed e task (Some err) w2
                 else if attempt < Retries cfg
                 then retryLoop e cfg task startTime (attempt + 1) (Some err)
                        (emit (Time_Sleep (calculateBackoff cfg attempt)) w2)
                 else retryLoop e cfg task startTime (attempt + 1) (Some err) w2))
      else finishFailed e task lastErr w)"
  by pat_completeness auto
termination
  by (relation "measure (\<lambda>(e, cfg, task, startTime, attempt, lastErr, w). nat (Retries cfg + 1 - attempt))")
    auto

declare retryLoop.simps [simp del]

definition Process :: "env \<Rightarrow> Config \<Rightarrow> Task \<Rightarrow> world \<Rightarrow> world result" where
  "Process e cfg task w =
     (let startTime = time_Now e (calls w);
          w1 = emit (Checkpoint_GetTask (Bucket task) (Key task)) w
      in if (case checkpoint_GetTask e (calls w1) of
               Inr (Some record) \<Rightarrow> rStatus record = StatusCompleted \<and> SkipExisting cfg
             | _ \<Rightarrow> False)
         then Return (IncSkippedWithBytes e (Size task)
                        (logger DebugLevel ''Skipping completed task'' [zap_String ''key'' (Key task)] w1))
         else if SkipExisting cfg then
           (let (m, w2) = objectExistsAndMatches e task w1
            in if m
               then Return (IncSkippedWithBytes e (Size task)
                              (markCompleted e task
                                 (logger DebugLevel ''Skipping existing object''
                                    [zap_String ''key'' (Key task)] w2)))
               else retryLoop e cfg task startTime 1 None w2)
         else retryLoop e cfg task startTime 1 None w1)"

subsection \<open>internal/config/config.go\<close>

record S3Config =
  Endpoint :: string
  AccessKey :: string
  SecretKey :: string
  Secure :: bool

record Migration =
  mBucket :: string
  mPrefix :: string
  mObject :: string
  mConcurrency :: int
  mMultipartThreshold :: int64
  mPartSize :: int64
  mRetries :: int
  mRetryBackoffMs :: int
  mDryRun :: bool
  mCheckpoint :: string
  mSkipExisting :: bool
  mResume :: bool
  mShowProgress :: bool

record config_Config =
  Source :: S3Config
  Target :: S3Config
  Migration :: Migration
  LogLevel :: string

definition validate :: "config_Config \<Rightarrow> string option" where
  "validate c =
     (if Endpoint (Source c) = [] then Some ''source endpoint is required''
      else if AccessKey (Source c) = [] then Some ''source access key is required''
      else if SecretKey (Source c) = [] then Some ''source secret key is required''
      else if Endpoint (Target c) = [] then Some ''target endpoint is required''
      else if AccessKey (Target c) = [] then Some ''target access key is required''
      else if SecretKey (Target c) = [] then Some ''target secret key is required''
      else if mBucket (Migration c) = [] then Some ''bucket is required''
      else if mConcurrency (Migration c) \<le> 0 then Some ''concurrency must be positive''
      else if mPartSize (Migration c) <s 5 * 1024 * 1024 then Some ''part size must be at least 5MB''
      else None)"

text \<open>
  \<open>Load\<close>: the argument is what the defaults, the YAML file and the flags give before
  validation (\<open>Inl\<close> when the file cannot be read or parsed).
\<close>

definition Load :: "string + config_Config \<Rightarrow> string + config_Config" where
  "Load merged =
     (case merged of
        Inl err \<Rightarrow> Inl (''failed to load config file: '' @ err)
      | Inr cfg \<Rightarrow>
          (case validate cfg of
             Some err \<Rightarrow> Inl (''invalid configuration: '' @ err)
           | None \<Rightarrow> Inr cfg))"

subsection \<open>internal/app/app.go and cmd/main.go\<close>

text \<open>
  What the start of the program meets outside the engine: the command line, the merged
  configuration, the logger, the two clients, the checkpoint store, and what
  \<open>ListAndEnqueue\<close> does: the tasks it finds (and enqueues, unless in a dry run) and the
  error it returns, if any. The workers run while the listing goes on; \<open>handled\<close> is the
  number of enqueued tasks they have been through when a failing listing returns.
\<close>

record startup =
  args_error :: "string option"
  merged_config :: "string + config_Config"
  logger_New :: "string option"
  src_NewMinIOClient :: "string option"
  dst_NewMinIOClient :: "string option"
  NewSQLiteStore :: "string option"
  listing :: "Task list \<times> string option"
  handled :: nat

definition workerConfig :: "config_Config \<Rightarrow> Config" where
  "workerConfig cfg =
     \<lparr>MultipartThreshold = mMultipartThreshold (Migration cfg),
      PartSize = mPartSize (Migration cfg),
      Retries = mRetries (Migration cfg),
      RetryBackoffMs = mRetryBackoffMs (Migration cfg),
      SkipExisting = mSkipExisting (Migration cfg)\<rparr>"

definition app_New :: "startup \<Rightarrow> string option" where
  "app_New st =
     (case src_NewMinIOClient st of
        Some err \<Rightarrow> Some (''failed to create source client: '' @ err)
      | None \<Rightarrow>
          (case dst_NewMinIOClient st of
             Some err \<Rightarrow> Some (''failed to create destination client: '' @ err)
           | None \<Rightarrow>
               (case NewSQLiteStore st of
                  Some err \<Rightarrow> Some (''failed to create checkpoint store: '' @ err)
                | None \<Rightarrow> None)))"

text \<open>
  The worker pool. Each task of the queue is processed once, by one worker; the model
  processes the tasks one after the other, in the order of the queue.
\<close>

fun workers :: "env \<Rightarrow> Config \<Rightarrow> Task list \<Rightarrow> world \<Rightarrow> world result" where
  "workers e cfg [] w = Return w"
| "workers e cfg (t # ts) w =
     (case Process e cfg t w of
        Panic m w' \<Rightarrow> Panic m w'
      | Return w' \<Rightarrow> workers e cfg ts w')"

text \<open>
  \<open>Migrator.Run\<close>: its result is the result of \<open>ListAndEnqueue\<close>. In a dry run nothing
  is enqueued. When the listing succeeds, \<open>Run\<close> closes the queue and waits for the
  workers (\<open>wg.Wait()\<close>), so every enqueued task is processed. When the listing fails,
  \<open>Run\<close> closes the queue and returns the error at once, without waiting: what the
  workers did before is done, the rest is cut off by the end of the program. A panic in
  a worker ends the program whatever \<open>Run\<close> is doing. The metrics server and the progress
  display are not modelled.
\<close>

definition enqueued :: "config_Config \<Rightarrow> startup \<Rightarrow> Task list" where
  "enqueued cfg st = (if mDryRun (Migration cfg) then [] else fst (listing st))"

definition Run :: "env \<Rightarrow> startup \<Rightarrow> config_Config \<Rightarrow> world \<Rightarrow> (string option \<times> world) result" where
  "Run e st cfg w =
     (case snd (listing st) of
        Some err \<Rightarrow>
          (case workers e (workerConfig cfg) (take (handled st) (enqueued cfg st)) w of
             Panic m w' \<Rightarrow> Panic m w'
           | Return w' \<Rightarrow> Return (Some (''failed to list objects: '' @ err), w'))
      | None \<Rightarrow>
          (case workers e (workerConfig cfg) (enqueued cfg st) w of
             Panic m w' \<Rightarrow> Panic m w'
           | Return w' \<Rightarrow> Return (None, w')))"

definition runMigration :: "env \<Rightarrow> startup \<Rightarrow> world \<Rightarrow> (string option \<times> world) result" where
  "runMigration e st w =
     (case Load (merged_config st) of
        Inl err \<Rightarrow> Return (Some (''failed to load config: '' @ err), w)
      | Inr cfg \<Rightarrow>
          (case logger_New st of
             Some err \<Rightarrow> Return (Some (''failed to initialize logger: '' @ err), w)
           | None \<Rightarrow>
               (case app_New st of
                  Some err \<Rightarrow> Return (Some (''failed to create migrator: '' @ err), w)
                | None \<Rightarrow> Run e st cfg w)))"

text \<open>
  \<open>main\<close>: the exit code of the process and the world it leaves. \<open>rootCmd.Execute()\<close>
  fails on a bad command line or with the error of \<open>runMigration\<close>; a panic ends a Go
  program with code 2.
\<close>

definition main_exit :: "env \<Rightarrow> startup \<Rightarrow> world \<Rightarrow> int \<times> world" where
  "main_exit e st w =
     (case args_error st of
        Some err \<Rightarrow> (1, w)
      | None \<Rightarrow>
          (case runMigration e st w of
             Return (Some err, w') \<Rightarrow> (1, w')
           | Return (None, w') \<Rightarrow> (0, w')
           | Panic m w' \<Rightarrow> (2, w')))"

subsection \<open>Observing a run\<close>

text \<open>Projections of the recorded calls and log entries, used to state the properties.\<close>

fun isGetObject :: "call \<Rightarrow> bool" where
  "isGetObject (Src_GetObject b k) = True"
| "isGetObject c = False"

fun isUploadPart :: "call \<Rightarrow> bool" where
  "isUploadPart (Dst_UploadPart b k u n sz) = True"
| "isUploadPart c = False"

fun isComplete :: "call \<Rightarrow> bool" where
  "isComplete (Dst_CompleteMultipartUpload b k u ps) = True"
| "isComplete c = False"

text \<open>The calls an upload makes after the source object is open.\<close>

fun upload_call :: "call \<Rightarrow> bool" where
  "upload_call Src_Close = True"
| "upload_call (Dst_PutObject b k sz opts) = True"
| "upload_call (Dst_NewMultipartUpload b k opts) = True"
| "upload_call (Dst_UploadPart b k u n sz) = True"
| "upload_call (Dst_CompleteMultipartUpload b k u ps) = True"
| "upload_call (Dst_AbortMultipartUpload b k u) = True"
| "upload_call c = False"

fun final_world :: "world result \<Rightarrow> world" where
  "final_world (Return w) = w"
| "final_world (Panic m w) = w"

fun panicked :: "'a result \<Rightarrow> bool" where
  "panicked (Return x) = False"
| "panicked (Panic m w) = True"

text \<open>
  The parts of a multipart transfer, taken from the source stream \<open>rd\<close> one after the
  other: the stream after the reads of parts \<open>1, \<dots>, i\<close>, what the read of part \<open>i\<close>
  returns (number of bytes and error), and the \<open>UploadPart\<close> calls of parts \<open>1, \<dots>, k\<close>.
\<close>

fun stream_after :: "Config \<Rightarrow> Task \<Rightarrow> Object \<Rightarrow> nat \<Rightarrow> Object" where
  "stream_after cfg task rd 0 = rd"
| "stream_after cfg task rd (Suc i) =
     snd (snd (ReadFull (stream_after cfg task rd i)
                  (nat (sint (partSizeOf cfg task (int (Suc i)))))))"

definition part_read :: "Config \<Rightarrow> Task \<Rightarrow> Object \<Rightarrow> nat \<Rightarrow> nat \<times> io_error option" where
  "part_read cfg task rd i =
     (case ReadFull (stream_after cfg task rd (i - 1)) (nat (sint (partSizeOf cfg task (int i)))) of
        (n, rerr, rd') \<Rightarrow> (n, rerr))"

definition part_calls :: "Config \<Rightarrow> Task \<Rightarrow> string \<Rightarrow> Object \<Rightarrow> nat \<Rightarrow> call list" where
  "part_calls cfg task uploadID rd k =
     map (\<lambda>i. Dst_UploadPart (Bucket task) (Key task) uploadID (int i)
                 (of_nat (fst (part_read cfg task rd i)))) [1..<Suc k]"

text \<open>
  The two ways in which part \<open>i\<close> fails. Its read fails: \<open>io.ReadFull\<close> returns an error
  other than \<open>io.ErrUnexpectedEOF\<close>. Its upload fails: \<open>UploadPart\<close>, called after the
  calls \<open>h\<close> that precede the loop and the uploads of the parts up to \<open>i\<close>, returns an error.
\<close>

definition read_fails :: "Config \<Rightarrow> Task \<Rightarrow> Object \<Rightarrow> nat \<Rightarrow> bool" where
  "read_fails cfg task rd i =
     (case snd (part_read cfg task rd i) of
        None \<Rightarrow> False
      | Some err \<Rightarrow> err \<noteq> io_ErrUnexpectedEOF)"

definition upload_answer ::
  "env \<Rightarrow> Config \<Rightarrow> Task \<Rightarrow> string \<Rightarrow> Object \<Rightarrow> call list \<Rightarrow> nat \<Rightarrow> string + string" where
  "upload_answer e cfg task uploadID rd h i =
     dst_UploadPart e (h @ part_calls cfg task uploadID rd i)"

text \<open>The error that \<open>uploadMultipart\<close> is to return when part \<open>i\<close> fails.\<close>

definition part_error ::
  "env \<Rightarrow> Config \<Rightarrow> Task \<Rightarrow> string \<Rightarrow> Object \<Rightarrow> call list \<Rightarrow> nat \<Rightarrow> string" where
  "part_error e cfg task uploadID rd h i =
     (if read_fails cfg task rd i
      then ''failed to read part '' @ Itoa (int i) @ '': '' @
             (case snd (part_read cfg task rd i) of Some err \<Rightarrow> io_Error err | None \<Rightarrow> [])
      else ''failed to upload part '' @ Itoa (int i) @ '': '' @
             (case upload_answer e cfg task uploadID rd h i of Inl err \<Rightarrow> err | Inr etag \<Rightarrow> []))"

definition saved_record :: "call \<Rightarrow> TaskRecord option" where
  "saved_record c = (case c of Checkpoint_SaveTask r \<Rightarrow> Some r | _ \<Rightarrow> None)"

definition saved_records :: "call list \<Rightarrow> TaskRecord list" where
  "saved_records cs = List.map_filter saved_record cs"

text \<open>The attempt number and error of a \<open>Task attempt failed\<close> entry.\<close>

definition attempt_failure :: "log_entry \<Rightarrow> (int \<times> string) option" where
  "attempt_failure l =
     (case l of
        Log lvl msg fs \<Rightarrow>
          (if lvl = WarnLevel \<and> msg = ''Task attempt failed'' then
             (case fs of
                [zap_String k key, zap_Int a attempt, zap_Error (Some err)] \<Rightarrow> Some (attempt, err)
              | _ \<Rightarrow> None)
           else None))"

definition attempt_failures :: "log_entry list \<Rightarrow> (int \<times> string) list" where
  "attempt_failures ls = List.map_filter attempt_failure ls"

subsection \<open>Concrete collaborators for the scenarios\<close>

text \<open>\<open>strings.ToLower\<close> on ASCII text.\<close>

definition ToLower_ascii :: "string \<Rightarrow> string" where
  "ToLower_ascii s =
     map (\<lambda>c. case map_of (zip ''ABCDEFGHIJKLMNOPQRSTUVWXYZ'' ''abcdefghijklmnopqrstuvwxyz'') c of
                 Some l \<Rightarrow> l
               | None \<Rightarrow> c) s"

text \<open>
  An empty checkpoint, an empty destination that accepts every request, and a source
  whose objects deliver \<open>n\<close> bytes.
\<close>

definition happy_env :: "nat \<Rightarrow> env" where
  "happy_env n =
     \<lparr>checkpoint_GetTask = (\<lambda>h. Inr None),
      checkpoint_SaveTask = (\<lambda>h. None),
      dst_HeadObject = (\<lambda>h. Inl ''The specified key does not exist.''),
      src_GetObject = (\<lambda>h. Inr \<lparr>remaining = n, read_error = None\<rparr>),
      dst_PutObject = (\<lambda>h. None),
      dst_NewMultipartUpload = (\<lambda>h. Inr ''upload-1''),
      dst_UploadPart = (\<lambda>h. Inr ''etag''),
      dst_CompleteMultipartUpload = (\<lambda>h. None),
      time_Now = (\<lambda>h. int (length h)),
      strings_ToLower = ToLower_ascii\<rparr>"

definition world0 :: world where
  "world0 = \<lparr>calls = [], logs = [], tracker = NewTracker 0\<rparr>"

definition default_Config :: Config where
  "default_Config =
     \<lparr>MultipartThreshold = 104857600, PartSize = 67108864, Retries = 5,
      RetryBackoffMs = 500, SkipExisting = True\<rparr>"

text \<open>The objects and answers of the scenarios.\<close>

definition task_S1 :: Task where
  "task_S1 = \<lparr>Bucket = ''b'', Key = ''k'', Size = 1024, ETag = ''abc'',
               ContentType = [], Metadata = []\<rparr>"

definition task_S2 :: Task where
  "task_S2 = \<lparr>Bucket = ''b'', Key = ''big'', Size = 200000000, ETag = ''abc-3'',
               ContentType = [], Metadata = []\<rparr>"

definition stale_record :: TaskRecord where
  "stale_record = \<lparr>rBucket = ''b'', rKey = ''k'', rSize = 7, rETag = ''old'',
                    rStatus = StatusCompleted, Attempts = 0, LastError = [], UpdatedAt = 0\<rparr>"


definition part2_fails :: "call list \<Rightarrow> string + string" where
  "part2_fails h =
     (case last h of
        Dst_UploadPart b k u n sz \<Rightarrow> if n = 2 then Inl ''connection reset by peer'' else Inr ''etag''
      | _ \<Rightarrow> Inr ''etag'')"

text \<open>
  Streams of 100000000 bytes for an object announced with 200000000: one whose
  connection is cut (its \<open>Read\<close> returns \<open>io.ErrUnexpectedEOF\<close>), one whose connection is
  reset.
\<close>

definition cut_stream :: Object where
  "cut_stream = \<lparr>remaining = 100000000, read_error = Some io_ErrUnexpectedEOF\<rparr>"

definition reset_stream :: Object where
  "reset_stream = \<lparr>remaining = 100000000, read_error = Some (reader_error ''connection reset by peer'')\<rparr>"

definition valid_config :: config_Config where
  "valid_config =
     \<lparr>Source = \<lparr>Endpoint = ''minio:9000'', AccessKey = ''ak'', SecretKey = ''sk'', Secure = False\<rparr>,
      Target = \<lparr>Endpoint = ''rustfs:9000'', AccessKey = ''ak'', SecretKey = ''sk'', Secure = True\<rparr>,
      Migration = \<lparr>mBucket = ''b'', mPrefix = [], mObject = [], mConcurrency = 16,
                    mMultipartThreshold = 104857600, mPartSize = 67108864, mRetries = 5,
                    mRetryBackoffMs = 500, mDryRun = False, mCheckpoint = ''./checkpoint.db'',
                    mSkipExisting = True, mResume = False, mShowProgress = True\<rparr>,
      LogLevel = ''info''\<rparr>"


text \<open>A source that refuses every request, one that refuses the first two, and a
  destination that forbids the upload.\<close>

definition source_down :: env where
  "source_down = (happy_env 1024)\<lparr>src_GetObject := \<lambda>h. Inl ''connection reset by peer''\<rparr>"

definition flaky_source :: env where
  "flaky_source =
     (happy_env 1024)\<lparr>src_GetObject :=
        \<lambda>h. if length (filter isGetObject h) < 3 then Inl ''connection reset by peer''
            else Inr \<lparr>remaining = 1024, read_error = None\<rparr>\<rparr>"


definition empty_store :: SQLiteStore where
  "empty_store = \<lparr>db = \<lparr>db_closed = False, db_faults = [], tasks_table = []\<rparr>, closed = False\<rparr>"

section \<open>Properties\<close>

subsection \<open>Progress tracker\<close>

text \<open>
  Claim C7. The tracker keeps \<open>processed = success + failed + skipped\<close> across
  \<open>AddSuccess\<close>, \<open>AddFailed\<close> and \<open>AddSkipped\<close>; \<open>AddSuccess\<close> and \<open>AddSkipped\<close> add the
  given bytes to the processed bytes, \<open>AddFailed\<close> leaves them unchanged.
\<close>

theorem tracker_conservation:
  assumes "conserved t"
  shows "conserved (AddSuccess now n t) \<and> conserved (AddFailed t) \<and> conserved (AddSkipped now n t)
     \<and> ProcessedBytes (status (AddSuccess now n t)) = ProcessedBytes (status t) + n
     \<and> ProcessedBytes (status (AddSkipped now n t)) = ProcessedBytes (status t) + n
     \<and> ProcessedBytes (status (AddFailed t)) = ProcessedBytes (status t)"
  using assms
  by (simp add: conserved_def AddSuccess_def AddFailed_def AddSkipped_def updateSpeed_def Let_def)

theorem tracker_conservation_witness:
  "conserved (NewTracker 0) \<and> conserved (AddSuccess 5 1024 (NewTracker 0))
     \<and> ProcessedBytes (status (AddSuccess 5 1024 (NewTracker 0))) = 1024
     \<and> ProcessedBytes (status (AddFailed (NewTracker 0))) = 0"
proof -
  have c: "conserved (NewTracker 0)" by (simp add: conserved_def NewTracker_def)
  have p: "ProcessedBytes (status (NewTracker 0)) = 0" by (simp add: NewTracker_def)
  show ?thesis using c p tracker_conservation [OF c, of 5 1024] by simp
qed

subsection \<open>Checkpoint store\<close>

lemma Close_closed: "closed (snd (Close s)) \<and> db_closed (db (snd (Close s)))"
  by (simp add: Close_def db_Close_def Let_def split: prod.splits list.splits)

text \<open>
  Claim C8. After \<open>Close\<close>, \<open>GetTask\<close>, \<open>SaveTask\<close>, \<open>ListPendingTasks\<close> and
  \<open>ListFailedTasks\<close> fail with a closed error and leave the store as it is (so every
  later operation fails the same way). \<open>GetTask\<close> and \<open>SaveTask\<close> answer from the
  store's own flag; the list operations have no such check and get the error of the
  closed \<open>database/sql\<close> handle.
\<close>

theorem closed_store_rejects:
  "GetTask b k (snd (Close s)) = (Inl ''database store is closed'', snd (Close s)) \<and>
   SaveTask now r (snd (Close s)) = (Some ''database store is closed'', snd (Close s)) \<and>
   ListPendingTasks (snd (Close s)) = (Inl ''sql: database is closed'', snd (Close s)) \<and>
   ListFailedTasks (snd (Close s)) = (Inl ''sql: database is closed'', snd (Close s))"
  using Close_closed [of s]
  by (simp add: GetTask_def SaveTask_def ListPendingTasks_def ListFailedTasks_def
      listTasksByStatus_def db_op_def)

subsection \<open>Rounding to binary64\<close>

lemma round_half_even_cases:
  "round_half_even y = \<lfloor>y\<rfloor> \<or> round_half_even y = \<lfloor>y\<rfloor> + 1"
  by (simp add: round_half_even_def Let_def)

lemma round_half_even_of_int: "round_half_even (of_int N) = N"
  by (simp add: round_half_even_def Let_def)

lemma round_half_even_ge: "of_int N \<le> y \<Longrightarrow> N \<le> round_half_even y"
proof -
  assume "of_int N \<le> y"
  then have "N \<le> \<lfloor>y\<rfloor>" by (simp add: le_floor_iff)
  then show ?thesis using round_half_even_cases [of y] by linarith
qed

lemma round_half_even_le: "y \<le> of_int N \<Longrightarrow> round_half_even y \<le> N"
proof -
  assume le: "y \<le> of_int N"
  show ?thesis
  proof (cases "y = of_int N")
    case True
    then show ?thesis by (simp add: round_half_even_of_int)
  next
    case False
    with le have "y < of_int N" by simp
    then have "\<lfloor>y\<rfloor> < N" by (simp add: floor_less_iff)
    then show ?thesis using round_half_even_cases [of y] by linarith
  qed
qed

lemma round_half_even_gt: "of_int N + 1 / 2 < y \<Longrightarrow> N + 1 \<le> round_half_even y"
proof -
  assume gt: "of_int N + 1 / 2 < y"
  then have "of_int N \<le> y" by simp
  then have fl: "N \<le> \<lfloor>y\<rfloor>" by (simp add: le_floor_iff)
  show ?thesis
  proof (cases "N = \<lfloor>y\<rfloor>")
    case True
    with gt have "1 / 2 < y - of_int \<lfloor>y\<rfloor>" by simp
    then have "round_half_even y = \<lfloor>y\<rfloor> + 1"
      by (simp add: round_half_even_def Let_def)
    with True show ?thesis by simp
  next
    case False
    with fl have "N + 1 \<le> \<lfloor>y\<rfloor>" by simp
    then show ?thesis using round_half_even_cases [of y] by linarith
  qed
qed

lemma exponent_bounds:
  assumes "0 < x"
  shows "2 powi (exponent x) \<le> x \<and> x < 2 powi (exponent x + 1)"
proof -
  obtain a b where q: "quotient_of x = (a, b)" by (cases "quotient_of x")
  have b: "0 < b" using q quotient_of_denom_pos by blast
  have x: "x = of_int a / of_int b" using q quotient_of_div by blast
  have a: "0 < a" using assms b x
    by (simp add: zero_less_divide_iff)
  define la where "la = floorlog 2 (nat a)"
  define lb where "lb = floorlog 2 (nat b)"
  have A: "2 ^ (la - 1) \<le> nat a \<and> nat a < 2 ^ la"
    unfolding la_def using floorlog_bounds [of "nat a" 2] a by simp
  have B: "2 ^ (lb - 1) \<le> nat b \<and> nat b < 2 ^ lb"
    unfolding lb_def using floorlog_bounds [of "nat b" 2] b by simp
  have la: "0 < la" using A a by (cases la) auto
  have lb: "0 < lb" using B b by (cases lb) auto
  have A1: "(2::rat) ^ (la - 1) \<le> of_int a"
  proof -
    have "int (2 ^ (la - 1)) \<le> a" using A a by linarith
    then have "(of_int (int (2 ^ (la - 1))) :: rat) \<le> of_int a" by (simp only: of_int_le_iff)
    then show ?thesis by simp
  qed
  have A2: "(of_int a :: rat) < 2 ^ la"
  proof -
    have "a < int (2 ^ la)" using A a by linarith
    then have "(of_int a :: rat) < of_int (int (2 ^ la))" by (simp only: of_int_less_iff)
    then show ?thesis by simp
  qed
  have B1: "(2::rat) ^ (lb - 1) \<le> of_int b"
  proof -
    have "int (2 ^ (lb - 1)) \<le> b" using B b by linarith
    then have "(of_int (int (2 ^ (lb - 1))) :: rat) \<le> of_int b" by (simp only: of_int_le_iff)
    then show ?thesis by simp
  qed
  have B2: "(of_int b :: rat) < 2 ^ lb"
  proof -
    have "b < int (2 ^ lb)" using B b by linarith
    then have "(of_int b :: rat) < of_int (int (2 ^ lb))" by (simp only: of_int_less_iff)
    then show ?thesis by simp
  qed
  have bpos: "(0::rat) < of_int b" using b by simp
  have p1: "(2::rat) powi (int la - int lb + 1) = 2 ^ la / 2 ^ (lb - 1)"
  proof -
    have i: "int la - int lb + 1 = int la - int (lb - 1)" using lb by simp
    have "(2::rat) powi (int la - int (lb - 1)) = 2 powi int la / 2 powi int (lb - 1)"
      by (rule power_int_diff) simp
    then show ?thesis unfolding i by (simp only: power_int_of_nat)
  qed
  have p2: "(2::rat) powi (int la - int lb - 1) = 2 ^ (la - 1) / 2 ^ lb"
  proof -
    have i: "int la - int lb - 1 = int (la - 1) - int lb" using la by simp
    have "(2::rat) powi (int (la - 1) - int lb) = 2 powi int (la - 1) / 2 powi int lb"
      by (rule power_int_diff) simp
    then show ?thesis unfolding i by (simp only: power_int_of_nat)
  qed
  have up: "x < 2 powi (int la - int lb + 1)"
  proof -
    have "of_int a / of_int b < (2::rat) ^ la / 2 ^ (lb - 1)"
      by (rule frac_less) (use A2 B1 a b in simp_all)
    then show ?thesis by (simp add: x p1)
  qed
  have lo: "2 powi (int la - int lb - 1) \<le> x"
  proof -
    have "(2::rat) ^ (la - 1) / 2 ^ lb \<le> of_int a / of_int b"
      by (rule frac_le) (use A1 B2 a b in simp_all)
    then show ?thesis by (simp add: x p2)
  qed
  have e: "exponent x = (if 2 powi (int la - int lb) \<le> x then int la - int lb else int la - int lb - 1)"
    by (simp add: exponent_def q Let_def la_def lb_def)
  show ?thesis
  proof (cases "2 powi (int la - int lb) \<le> x")
    case True
    then show ?thesis using up e by simp
  next
    case False
    then have "x < 2 powi (int la - int lb)" by simp
    then show ?thesis using lo e False by simp
  qed
qed


lemma exponent_less: "0 < x \<Longrightarrow> x < 2 powi N \<Longrightarrow> exponent x < N"
proof (rule ccontr)
  assume x: "0 < x" and lt: "x < 2 powi N" and "\<not> exponent x < N"
  then have "N \<le> exponent x" by simp
  then have "(2::rat) powi N \<le> 2 powi (exponent x)" by (rule power_int_increasing) simp
  with exponent_bounds [OF x] lt show False by simp
qed

lemma exponent_ge: "0 < x \<Longrightarrow> 2 powi M \<le> x \<Longrightarrow> M \<le> exponent x"
proof (rule ccontr)
  assume x: "0 < x" and le: "2 powi M \<le> x" and "\<not> M \<le> exponent x"
  then have "exponent x + 1 \<le> M" by simp
  then have "(2::rat) powi (exponent x + 1) \<le> 2 powi M" by (rule power_int_increasing) simp
  with exponent_bounds [OF x] le show False by simp
qed

lemma float64_pos:
  "0 < x \<Longrightarrow> - 1022 \<le> exponent x \<Longrightarrow>
     float64 x = of_int (round_half_even (x / 2 powi (exponent x - 52))) * 2 powi (exponent x - 52)"
  by (simp add: float64_def Let_def max_def)

lemma ulp_inverse:
  assumes "e \<le> 52"
  shows "y / (2::rat) powi (e - 52) = y * 2 ^ nat (52 - e)"
proof -
  have "(2::rat) powi (e - 52) = 2 powi (- (52 - e))" by simp
  also have "\<dots> = inverse (2 powi (52 - e))" by (rule power_int_minus)
  also have "\<dots> = inverse (2 ^ nat (52 - e))" using assms by (simp add: power_int_nonneg_exp)
  finally show ?thesis by (simp add: divide_inverse)
qed

lemma ulp_mult:
  assumes "e \<le> 52"
  shows "of_int ((2::int) ^ nat (52 - e)) * (2::rat) powi (e - 52) = 1"
proof -
  have "(0::rat) < 2 powi (e - 52)" by (simp add: zero_less_power_int)
  then have "(2::rat) powi (e - 52) * 2 ^ nat (52 - e) = 1"
    using ulp_inverse [OF assms, of "2 powi (e - 52)"] by simp
  then show ?thesis by (simp add: mult.commute)
qed

lemma float64_le_int:
  assumes x: "0 < x" and le: "x \<le> of_int c" and lo: "- 1022 \<le> exponent x" and hi: "exponent x \<le> 52"
  shows "float64 x \<le> of_int c"
proof -
  let ?u = "(2::rat) powi (exponent x - 52)"
  let ?m = "(2::int) ^ nat (52 - exponent x)"
  have u: "0 < ?u" by (simp add: zero_less_power_int)
  have "x / ?u = x * of_int ?m" using ulp_inverse [OF hi] by simp
  also have "\<dots> \<le> of_int c * of_int ?m" using le by (simp add: mult_right_mono)
  finally have "x / ?u \<le> of_int (c * ?m)" by simp
  then have "round_half_even (x / ?u) \<le> c * ?m" by (rule round_half_even_le)
  then have "(of_int (round_half_even (x / ?u)) :: rat) \<le> of_int (c * ?m)" by (simp only: of_int_le_iff)
  then have "of_int (round_half_even (x / ?u)) * ?u \<le> of_int (c * ?m) * ?u"
    using u by (simp add: mult_right_mono)
  also have "of_int (c * ?m) * ?u = of_int c * (of_int ?m * ?u)" by simp
  also have "of_int ?m * ?u = 1" by (rule ulp_mult [OF hi])
  finally show ?thesis using float64_pos [OF x lo] by simp
qed

lemma float64_gt_int:
  assumes x: "0 < x" and gt: "of_int k + 2 powi (exponent x - 52) / 2 < x"
    and lo: "- 1022 \<le> exponent x" and hi: "exponent x \<le> 52"
  shows "of_int k < float64 x"
proof -
  let ?u = "(2::rat) powi (exponent x - 52)"
  let ?m = "(2::int) ^ nat (52 - exponent x)"
  have u: "0 < ?u" by (simp add: zero_less_power_int)
  have mu: "of_int ?m * ?u = 1" by (rule ulp_mult [OF hi])
  have "(of_int k + ?u / 2) / ?u < x / ?u" using gt u by (simp add: divide_strict_right_mono)
  moreover have "(of_int k + ?u / 2) / ?u = of_int k / ?u + 1 / 2" using u by (simp add: add_divide_distrib)
  moreover have "of_int k / ?u = of_int (k * ?m)" using ulp_inverse [OF hi, of "of_int k"] by simp
  ultimately have "of_int (k * ?m) + 1 / 2 < x / ?u" by simp
  then have "k * ?m + 1 \<le> round_half_even (x / ?u)" by (rule round_half_even_gt)
  then have "(of_int (k * ?m + 1) :: rat) \<le> of_int (round_half_even (x / ?u))" by (simp only: of_int_le_iff)
  then have a: "of_int (k * ?m + 1) * ?u \<le> of_int (round_half_even (x / ?u)) * ?u"
    using u by (intro mult_right_mono) simp_all
  have "of_int (k * ?m + 1) * ?u = of_int k * (of_int ?m * ?u) + ?u" by (simp add: algebra_simps)
  then have b: "of_int (k * ?m + 1) * ?u = of_int k + ?u" by (simp only: mu mult_1_right)
  have "of_int k + ?u \<le> float64 x"
    unfolding float64_pos [OF x lo] b [symmetric] by (rule a)
  then show ?thesis using u by linarith
qed

lemma float64_of_int:
  assumes "0 \<le> n" and "n < 2 ^ 53"
  shows "float64 (of_int n) = of_int n"
proof (cases "n = 0")
  case True
  then show ?thesis by (simp add: float64_def)
next
  case False
  with assms have n: "0 < n" by simp
  let ?x = "of_int n :: rat"
  have x: "0 < ?x" using n by simp
  have "?x < 2 powi 53" using assms(2) by (metis of_int_less_iff of_int_numeral of_int_power power_int_numeral)
  then have "exponent ?x < 53" by (rule exponent_less [OF x])
  then have hi: "exponent ?x \<le> 52" by simp
  have "(2::rat) powi 0 \<le> ?x" using n by simp
  then have "0 \<le> exponent ?x" by (rule exponent_ge [OF x])
  then have lo: "- 1022 \<le> exponent ?x" by simp
  have up: "float64 ?x \<le> of_int n" by (rule float64_le_int [OF x _ lo hi]) simp
  let ?u = "(2::rat) powi (exponent ?x - 52)"
  let ?m = "(2::int) ^ nat (52 - exponent ?x)"
  have "?x / ?u = of_int (n * ?m)" using ulp_inverse [OF hi, of ?x] by simp
  then have "round_half_even (?x / ?u) = n * ?m" by (simp only: round_half_even_of_int)
  moreover have "of_int ?m * ?u = 1" by (rule ulp_mult [OF hi])
  ultimately show ?thesis using float64_pos [OF x lo] by (simp add: mult.assoc)
qed

lemma ceiling_float64_quotient:
  fixes s p :: int
  assumes s: "0 \<le> s" "s < 2 ^ 53" and p: "0 < p" "p < 2 ^ 53"
  shows "\<lceil>float64 (float64 (of_int s) / float64 (of_int p))\<rceil> = \<lceil>(of_int s :: rat) / of_int p\<rceil>"
proof (cases "s = 0")
  case True
  then show ?thesis by (simp add: float64_def)
next
  case False
  with s have spos: "0 < s" by simp
  let ?q = "(of_int s :: rat) / of_int p"
  have q: "0 < ?q" using spos p by simp
  have fl: "float64 (of_int s) / float64 (of_int p) = ?q"
    using float64_of_int [OF s] float64_of_int [of p] p by simp
  have pr: "(0::rat) < of_int p" using p by simp
  have "?q \<le> of_int s"
  proof -
    have "(1::rat) \<le> of_int p" using p by (simp add: int_one_le_iff_zero_less)
    then have "(of_int s :: rat) * 1 \<le> of_int s * of_int p"
      using spos by (intro mult_left_mono) simp_all
    then show ?thesis using pr by (simp add: pos_divide_le_eq)
  qed
  moreover have "(of_int s :: rat) < 2 powi 53"
    using s(2) by (metis of_int_less_iff of_int_numeral of_int_power power_int_numeral)
  ultimately have "?q < 2 powi 53" by linarith
  then have "exponent ?q < 53" by (rule exponent_less [OF q])
  then have hi: "exponent ?q \<le> 52" by simp
  have p53: "(of_int p :: rat) < 2 ^ 53"
    using p(2) by (metis of_int_less_iff of_int_numeral of_int_power)
  have "(2::rat) powi (- 53) \<le> ?q"
  proof -
    have "(2::rat) powi (- 53) = 1 / 2 ^ 53" by (simp add: power_int_minus_divide)
    also have "\<dots> \<le> 1 / of_int p" using p53 pr by (simp add: frac_le)
    also have "\<dots> \<le> ?q" using spos pr by (simp add: divide_right_mono int_one_le_iff_zero_less)
    finally show ?thesis .
  qed
  then have "- 53 \<le> exponent ?q" by (rule exponent_ge [OF q])
  then have lo: "- 1022 \<le> exponent ?q" by simp
  define c where "c = \<lceil>?q\<rceil>"
  have c1: "of_int c - 1 < ?q" and c2: "?q \<le> of_int c"
    unfolding c_def by linarith+
  have up: "float64 ?q \<le> of_int c" by (rule float64_le_int [OF q c2 lo hi])
  have kp: "(c - 1) * p + 1 \<le> s"
  proof -
    have "of_int (c - 1) * of_int p < (of_int s :: rat)"
      using c1 pr by (simp add: pos_less_divide_eq)
    then have "(of_int ((c - 1) * p) :: rat) < of_int s" by simp
    then have "(c - 1) * p < s" by (simp only: of_int_less_iff)
    then show ?thesis by simp
  qed
  have gap: "of_int (c - 1) + 1 / of_int p \<le> ?q"
  proof -
    have "(of_int ((c - 1) * p + 1) :: rat) \<le> of_int s" using kp by (simp only: of_int_le_iff)
    then have "(of_int (c - 1) * of_int p + 1) / of_int p \<le> ?q"
      using pr by (simp add: divide_right_mono)
    moreover have "(of_int (c - 1) * of_int p + 1) / of_int p = of_int (c - 1) + 1 / (of_int p :: rat)"
      using pr by (simp add: add_divide_distrib)
    ultimately show ?thesis by simp
  qed
  have half: "2 powi (exponent ?q - 52) / 2 < 1 / (of_int p :: rat)"
  proof -
    have "(2::rat) powi (exponent ?q - 52) = 2 powi (exponent ?q) / 2 powi 52"
      by (rule power_int_diff) simp
    also have "\<dots> \<le> ?q / 2 powi 52"
      using exponent_bounds [OF q] by (simp add: divide_right_mono)
    finally have "2 powi (exponent ?q - 52) / 2 \<le> ?q / 2 powi 52 / 2" by simp
    also have "\<dots> = (of_int s / 2 ^ 53) * (1 / of_int p)" by simp
    also have "\<dots> < 1 * (1 / of_int p)"
    proof (rule mult_strict_right_mono)
      have "(of_int s :: rat) < 2 ^ 53" using s(2) by (metis of_int_less_iff of_int_numeral of_int_power)
      then show "(of_int s :: rat) / 2 ^ 53 < 1" by simp
      show "(0::rat) < 1 / of_int p" using pr by simp
    qed
    finally show ?thesis by simp
  qed
  have low: "of_int (c - 1) < float64 ?q"
    by (rule float64_gt_int [OF q _ lo hi]) (use gap half in linarith)
  have "\<lceil>float64 ?q\<rceil> = c"
    by (rule ceiling_unique) (use low up in simp_all)
  then show ?thesis by (simp add: fl c_def)
qed

subsection \<open>What each function adds to the world\<close>

lemma calls_emit [simp]: "calls (emit c w) = calls w @ [c]"
  and logs_emit [simp]: "logs (emit c w) = logs w"
  and tracker_emit [simp]: "tracker (emit c w) = tracker w"
  by (simp_all add: emit_def)

lemma calls_logger [simp]: "calls (logger l m fs w) = calls w"
  and tracker_logger [simp]: "tracker (logger l m fs w) = tracker w"
  and logs_logger [simp]: "logs (logger l m fs w) = logs w @ [Log l m fs]"
  by (simp_all add: logger_def)

lemma uploadParts_frame:
  "uploadParts e cfg task uid pc n parts rd w = r \<Longrightarrow>
    (case r of
       Return (Inr ps, w') \<Rightarrow>
         (\<exists>cs. calls w' = calls w @ cs \<and> list_all isUploadPart cs) \<and>
         logs w' = logs w \<and> tracker w' = tracker w
     | Return (Inl err, w') \<Rightarrow>
         (\<exists>cs. calls w' = calls w @ cs @ [Dst_AbortMultipartUpload (Bucket task) (Key task) uid] \<and>
               list_all isUploadPart cs) \<and>
         (HasPrefix err ''failed to read part '' \<or> HasPrefix err ''failed to upload part '') \<and>
         logs w' = logs w \<and> tracker w' = tracker w
     | Panic m w' \<Rightarrow>
         (\<exists>cs. calls w' = calls w @ cs \<and> list_all isUploadPart cs) \<and>
         logs w' = logs w \<and> tracker w' = tracker w)"
proof (induction e cfg task uid pc n parts rd w arbitrary: r rule: uploadParts.induct)
  case (1 e cfg task uploadID pc partNum parts rd w)
  show ?case
  proof (cases "partNum \<le> pc")
    case False
    with "1.prems" show ?thesis by (auto simp add: uploadParts.simps)
  next
    case le: True
    show ?thesis
    proof (cases "partSizeOf cfg task partNum <s 0")
      case True
      with le "1.prems" show ?thesis by (auto simp add: uploadParts.simps Let_def)
    next
      case nonneg: False
      obtain n rerr rd' where rf: "ReadFull rd (nat (sint (partSizeOf cfg task partNum))) = (n, rerr, rd')"
        by (cases "ReadFull rd (nat (sint (partSizeOf cfg task partNum)))") auto
      show ?thesis
      proof (cases "rerr \<noteq> None \<and> rerr \<noteq> Some io_ErrUnexpectedEOF")
        case True
        with le nonneg rf "1.prems" show ?thesis
          by (subst (asm) uploadParts.simps) (auto simp add: Let_def)
      next
        case readok: False
        let ?w1 = "emit (Dst_UploadPart (Bucket task) (Key task) uploadID partNum (of_nat n)) w"
        show ?thesis
        proof (cases "dst_UploadPart e (calls ?w1)")
          case (Inl err)
          with le nonneg rf readok "1.prems" show ?thesis
            by (subst (asm) uploadParts.simps) (auto simp add: Let_def)
        next
          case (Inr etag)
          have step: "uploadParts e cfg task uploadID pc (partNum + 1)
                    (parts @ [\<lparr>PartNumber = partNum, cETag = etag\<rparr>]) rd' ?w1 = r"
            using le nonneg rf readok Inr "1.prems"
            by (subst (asm) uploadParts.simps) (auto simp add: Let_def)
          have ih: "case r of
             Return (Inr ps, w') \<Rightarrow>
               (\<exists>cs. calls w' = calls ?w1 @ cs \<and> list_all isUploadPart cs) \<and>
               logs w' = logs ?w1 \<and> tracker w' = tracker ?w1
           | Return (Inl err, w') \<Rightarrow>
               (\<exists>cs. calls w' = calls ?w1 @ cs @ [Dst_AbortMultipartUpload (Bucket task) (Key task) uploadID] \<and>
                     list_all isUploadPart cs) \<and>
               (HasPrefix err ''failed to read part '' \<or> HasPrefix err ''failed to upload part '') \<and>
               logs w' = logs ?w1 \<and> tracker w' = tracker ?w1
           | Panic m w' \<Rightarrow>
               (\<exists>cs. calls w' = calls ?w1 @ cs \<and> list_all isUploadPart cs) \<and>
               logs w' = logs ?w1 \<and> tracker w' = tracker ?w1"
            using "1.IH" [OF le refl _ rf [symmetric] refl _ refl Inr step] nonneg readok
            by simp
          then show ?thesis
            by (auto split: result.splits sum.splits prod.splits
                intro: exI [where x = "Dst_UploadPart (Bucket task) (Key task) uploadID partNum (of_nat n) # cs" for cs])
        qed
      qed
    qed
  qed
qed

lemma attempt_failures_simps [simp]:
  "attempt_failures [] = []"
  "attempt_failures (xs @ ys) = attempt_failures xs @ attempt_failures ys"
  by (simp_all add: attempt_failures_def map_filter_def)

lemma attempt_failures_Cons:
  "attempt_failures (l # ls) =
     (case attempt_failure l of None \<Rightarrow> attempt_failures ls | Some p \<Rightarrow> p # attempt_failures ls)"
  by (simp add: attempt_failures_def map_filter_def split: option.splits)

lemma saved_records_simps [simp]:
  "saved_records [] = []"
  "saved_records (xs @ ys) = saved_records xs @ saved_records ys"
  by (simp_all add: saved_records_def map_filter_def)

lemma saved_records_Cons:
  "saved_records (c # cs) =
     (case saved_record c of None \<Rightarrow> saved_records cs | Some r \<Rightarrow> r # saved_records cs)"
  by (simp add: saved_records_def map_filter_def split: option.splits)

lemma upload_calls_only:
  "list_all upload_call cs \<Longrightarrow>
     saved_records cs = [] \<and> filter isGetObject cs = [] \<and>
     (\<forall>l. Metrics_objectsTotal_Inc l \<notin> set cs)"
proof (induction cs)
  case Nil
  then show ?case by simp
next
  case (Cons c cs)
  then show ?case
    by (cases c) (auto simp add: saved_records_Cons saved_record_def)
qed

lemma isUploadPart_upload_call: "list_all isUploadPart cs \<Longrightarrow> list_all upload_call cs"
  by (induction cs) (auto elim: isUploadPart.elims)

lemma uploadMultipart_frame:
  "uploadMultipart e cfg task rd w = r \<Longrightarrow>
     (case r of
        Return (err, w') \<Rightarrow>
          (\<exists>cs. calls w' = calls w @ cs \<and> list_all upload_call cs) \<and>
          logs w' = logs w \<and> tracker w' = tracker w
      | Panic m w' \<Rightarrow>
          (\<exists>cs. calls w' = calls w @ cs \<and> list_all upload_call cs) \<and>
          logs w' = logs w \<and> tracker w' = tracker w)"
proof -
  assume r: "uploadMultipart e cfg task rd w = r"
  let ?w1 = "emit (Dst_NewMultipartUpload (Bucket task) (Key task) (putOptions task)) w"
  show ?thesis
  proof (cases "dst_NewMultipartUpload e (calls ?w1)")
    case (Inl err)
    with r show ?thesis by (auto simp add: uploadMultipart_def Let_def)
  next
    case (Inr uploadID)
    let ?u = "uploadParts e cfg task uploadID (partCount cfg task) 1 [] rd ?w1"
    note init = Inr
    have f: "case ?u of
       Return (Inr ps, w') \<Rightarrow>
         (\<exists>cs. calls w' = calls ?w1 @ cs \<and> list_all isUploadPart cs) \<and>
         logs w' = logs ?w1 \<and> tracker w' = tracker ?w1
     | Return (Inl err, w') \<Rightarrow>
         (\<exists>cs. calls w' = calls ?w1 @ cs @ [Dst_AbortMultipartUpload (Bucket task) (Key task) uploadID] \<and>
               list_all isUploadPart cs) \<and>
         (HasPrefix err ''failed to read part '' \<or> HasPrefix err ''failed to upload part '') \<and>
         logs w' = logs ?w1 \<and> tracker w' = tracker ?w1
     | Panic m w' \<Rightarrow>
         (\<exists>cs. calls w' = calls ?w1 @ cs \<and> list_all isUploadPart cs) \<and>
         logs w' = logs ?w1 \<and> tracker w' = tracker ?w1"
      by (rule uploadParts_frame [OF refl])
    show ?thesis
    proof (cases ?u)
      case (Panic m w2)
      with f r Inr show ?thesis
        by (auto simp add: uploadMultipart_def Let_def dest: isUploadPart_upload_call split: if_splits)
    next
      case (Return x)
      obtain res w2 where x: "x = (res, w2)" by (cases x)
      show ?thesis
      proof (cases res)
        case (Inl err)
        with f r init Return x show ?thesis
          by (auto simp add: uploadMultipart_def Let_def dest: isUploadPart_upload_call split: if_splits)
      next
        case (Inr parts)
        with f r init Return x show ?thesis
          by (auto simp add: uploadMultipart_def Let_def dest: isUploadPart_upload_call split: if_splits)
      qed
    qed
  qed
qed

lemma processTask_frame:
  "processTask e cfg task w = r \<Longrightarrow>
     (case r of
        Return (err, w') \<Rightarrow>
          (\<exists>cs. calls w' = calls w @ Src_GetObject (Bucket task) (Key task) # cs \<and>
                list_all upload_call cs) \<and>
          logs w' = logs w \<and> tracker w' = tracker w
      | Panic m w' \<Rightarrow>
          (\<exists>cs. calls w' = calls w @ Src_GetObject (Bucket task) (Key task) # cs \<and>
                list_all upload_call cs) \<and>
          logs w' = logs w \<and> tracker w' = tracker w)"
proof -
  assume r: "processTask e cfg task w = r"
  let ?w1 = "emit (Src_GetObject (Bucket task) (Key task)) w"
  show ?thesis
  proof (cases "src_GetObject e (calls ?w1)")
    case (Inl err)
    with r show ?thesis by (auto simp add: processTask_def Let_def)
  next
    case (Inr srcObj)
    show ?thesis
    proof (cases "Size task <s MultipartThreshold cfg")
      case True
      with r Inr show ?thesis
        by (auto simp add: processTask_def Let_def uploadSingle_def)
    next
      case False
      have "case uploadMultipart e cfg task srcObj ?w1 of
          Return (err, w') \<Rightarrow>
            (\<exists>cs. calls w' = calls ?w1 @ cs \<and> list_all upload_call cs) \<and>
            logs w' = logs ?w1 \<and> tracker w' = tracker ?w1
        | Panic m w' \<Rightarrow>
            (\<exists>cs. calls w' = calls ?w1 @ cs \<and> list_all upload_call cs) \<and>
            logs w' = logs ?w1 \<and> tracker w' = tracker ?w1"
        by (rule uploadMultipart_frame [OF refl])
      with r Inr False show ?thesis
        by (auto simp add: processTask_def Let_def split: result.splits prod.splits)
    qed
  qed
qed

subsection \<open>Multipart transfer\<close>

lemma sint_of_int64:
  "- (2 ^ 63) \<le> x \<Longrightarrow> x < 2 ^ 63 \<Longrightarrow> sint (of_int x :: 64 word) = x"
  by (simp add: sint_sbintrunc' signed_take_bit_int_eq_self)

lemma partCount_exact:
  assumes "0 \<le> sint (Size task)" "sint (Size task) < 2 ^ 53"
    and "0 < sint (PartSize cfg)" "sint (PartSize cfg) < 2 ^ 53"
  shows "partCount cfg task = \<lceil>(of_int (sint (Size task)) :: rat) / of_int (sint (PartSize cfg))\<rceil>"
  unfolding partCount_def by (rule ceiling_float64_quotient [OF assms])

lemma below_partCount:
  fixes S P n :: int
  assumes "0 < P" and "n \<le> \<lceil>(of_int S :: rat) / of_int P\<rceil>"
  shows "(n - 1) * P < S"
proof -
  have "of_int n - 1 < (of_int S :: rat) / of_int P"
    using assms(2) by linarith
  then have "(of_int n - 1) * of_int P < (of_int S :: rat)"
    using assms(1) by (simp add: pos_less_divide_eq)
  then have "(of_int ((n - 1) * P) :: rat) < of_int S" by simp
  then show ?thesis by (simp only: of_int_less_iff)
qed

lemma partSizeOf_value:
  assumes S: "0 \<le> sint (Size task)" "sint (Size task) < 2 ^ 53"
    and P: "0 < sint (PartSize cfg)" "sint (PartSize cfg) < 2 ^ 53"
    and n: "1 \<le> n" "(n - 1) * sint (PartSize cfg) < sint (Size task)"
  shows "partSizeOf cfg task n =
           of_int (min (sint (PartSize cfg)) (sint (Size task) - (n - 1) * sint (PartSize cfg)))"
proof -
  let ?S = "sint (Size task)" and ?P = "sint (PartSize cfg)"
  define m where "m = (n - 1) * ?P"
  have m0: "0 \<le> m" using n P by (simp add: m_def)
  have mS: "m < ?S" using n by (simp add: m_def)
  have S': "?S < 9007199254740992" and P': "?P < 9007199254740992" using S P by simp_all
  have w1: "of_int (n - 1) * PartSize cfg + PartSize cfg = (of_int (m + ?P) :: 64 word)"
    by (simp add: m_def)
  have r1: "sint (of_int (m + ?P) :: 64 word) = m + ?P"
    by (rule sint_of_int64) (use S' P' P m0 mS in simp_all)
  have w2: "Size task - of_int (n - 1) * PartSize cfg = (of_int (?S - m) :: 64 word)"
    by (simp add: m_def)
  show ?thesis
    unfolding partSizeOf_def word_sless_alt w1 r1 w2
    by (simp add: min_def m_def)
qed


lemma ReadFull_enough:
  "k \<le> remaining rd \<Longrightarrow> ReadFull rd k = (k, None, rd\<lparr>remaining := remaining rd - k\<rparr>)"
  by (simp add: ReadFull_def)

lemma uploadParts_success:
  "0 \<le> sint (Size task) \<Longrightarrow> sint (Size task) < 2 ^ 53 \<Longrightarrow>
   0 < sint (PartSize cfg) \<Longrightarrow> sint (PartSize cfg) < 2 ^ 53 \<Longrightarrow>
   pc = \<lceil>(of_int (sint (Size task)) :: rat) / of_int (sint (PartSize cfg))\<rceil> \<Longrightarrow>
   1 \<le> n \<Longrightarrow>
   sint (Size task) - (n - 1) * sint (PartSize cfg) \<le> int (remaining rd) \<Longrightarrow>
   uploadParts e cfg task uid pc n parts rd w = Return (Inr ps, w') \<Longrightarrow>
   calls w' = calls w @
      map (\<lambda>i. Dst_UploadPart (Bucket task) (Key task) uid i
                  (of_int (min (sint (PartSize cfg))
                               (sint (Size task) - (i - 1) * sint (PartSize cfg))))) [n..pc] \<and>
   map PartNumber ps = map PartNumber parts @ [n..pc]"
proof (induction e cfg task uid pc n parts rd w rule: uploadParts.induct)
  case (1 e cfg task uploadID pc partNum parts rd w)
  let ?S = "sint (Size task)" and ?P = "sint (PartSize cfg)"
  note S = "1.prems"(1,2) and P = "1.prems"(3,4) and pc = "1.prems"(5) and n = "1.prems"(6)
    and enough = "1.prems"(7) and res = "1.prems"(8)
  show ?case
  proof (cases "partNum \<le> pc")
    case False
    with res show ?thesis by (auto simp add: uploadParts.simps)
  next
    case le: True
    have lt: "(partNum - 1) * ?P < ?S"
      using below_partCount [OF P(1), of partNum ?S] le pc by simp
    define sz where "sz = min ?P (?S - (partNum - 1) * ?P)"
    have psz: "partSizeOf cfg task partNum = of_int sz"
      unfolding sz_def by (rule partSizeOf_value [OF S P n lt])
    have sz: "0 < sz" "sz \<le> ?P" "sz \<le> ?S - (partNum - 1) * ?P"
      using lt P by (simp_all add: sz_def)
    have P': "?P < 9007199254740992" using P by simp
    have ssz: "sint (of_int sz :: 64 word) = sz"
      by (rule sint_of_int64) (use sz P' in simp_all)
    have nonneg: "\<not> partSizeOf cfg task partNum <s 0"
      by (simp add: psz word_sless_alt ssz) (use sz in simp)
    have k: "nat (sint (partSizeOf cfg task partNum)) = nat sz" by (simp add: psz ssz)
    have "nat sz \<le> remaining rd" using sz enough by linarith
    then have rf: "ReadFull rd (nat (sint (partSizeOf cfg task partNum))) =
                    (nat sz, None, rd\<lparr>remaining := remaining rd - nat sz\<rparr>)"
      unfolding k by (rule ReadFull_enough)
    have osz: "(of_nat (nat sz) :: 64 word) = of_int sz" using sz by simp
    let ?c = "Dst_UploadPart (Bucket task) (Key task) uploadID partNum (of_int sz)"
    let ?w1 = "emit (Dst_UploadPart (Bucket task) (Key task) uploadID partNum (of_nat (nat sz))) w"
    show ?thesis
    proof (cases "dst_UploadPart e (calls ?w1)")
      case (Inl err)
      with le nonneg rf res show ?thesis
        by (subst (asm) uploadParts.simps) (auto simp add: Let_def)
    next
      case (Inr etag)
      let ?rd' = "rd\<lparr>remaining := remaining rd - nat sz\<rparr>"
      have step: "uploadParts e cfg task uploadID pc (partNum + 1)
                    (parts @ [\<lparr>PartNumber = partNum, cETag = etag\<rparr>]) ?rd' ?w1 = Return (Inr ps, w')"
        using le nonneg rf Inr res
        by (subst (asm) uploadParts.simps) (auto simp add: Let_def)
      have enough': "?S - (partNum + 1 - 1) * ?P \<le> int (remaining ?rd')"
      proof -
        have "int (remaining rd - nat sz) = int (remaining rd) - sz"
          using \<open>nat sz \<le> remaining rd\<close> sz by simp
        moreover have "?S - partNum * ?P \<le> ?S - (partNum - 1) * ?P - sz"
          using sz P by (simp add: sz_def min_def algebra_simps)
        ultimately show ?thesis using enough by simp
      qed
      have n': "1 \<le> partNum + 1" using n by simp
      have ih: "calls w' = calls ?w1 @
          map (\<lambda>i. Dst_UploadPart (Bucket task) (Key task) uploadID i
                  (of_int (min ?P (?S - (i - 1) * ?P)))) [partNum + 1..pc] \<and>
          map PartNumber ps =
            map PartNumber (parts @ [\<lparr>PartNumber = partNum, cETag = etag\<rparr>]) @ [partNum + 1..pc]"
        using "1.IH" [OF le refl nonneg rf [symmetric] refl _ refl Inr S P pc n' enough' step]
        by simp
      have up: "[partNum..pc] = partNum # [partNum + 1..pc]"
        using le by (simp add: upto_rec1)
      have osz': "(of_nat (nat (min ?P (?S - (partNum - 1) * ?P))) :: 64 word) =
                    of_int (min ?P (?S - (partNum - 1) * ?P))"
        using osz by (simp only: sz_def)
      show ?thesis using ih by (simp add: up osz' sz_def)
    qed
  qed
qed

text \<open>
  Claim C1, as the code has it. A task at or above the multipart threshold whose
  transfer succeeds, from a source stream that holds the \<open>size\<close> bytes: the calls of the attempt are the \<open>GetObject\<close>,
  the \<open>NewMultipartUpload\<close>, then exactly \<open>\<lceil>size / part_size\<rceil>\<close> \<open>UploadPart\<close> calls with
  part numbers \<open>1, 2, \<dots>\<close> in ascending order, part \<open>n\<close> of size
  \<open>min part_size (size - (n - 1) * part_size)\<close>, then one \<open>CompleteMultipartUpload\<close>
  whose part list carries the part numbers in ascending order. Sizes are below \<open>2\<^sup>5\<^sup>3\<close>,
  where \<open>float64\<close> holds them exactly.
\<close>

theorem multipart_uploads_all_parts:
  assumes S: "0 \<le> sint (Size task)" "sint (Size task) < 2 ^ 53"
    and P: "0 < sint (PartSize cfg)" "sint (PartSize cfg) < 2 ^ 53"
    and big: "MultipartThreshold cfg \<le>s Size task"
    and src: "src_GetObject e (calls w @ [Src_GetObject (Bucket task) (Key task)]) = Inr srcObj"
    and enough: "nat (sint (Size task)) \<le> remaining srcObj"
    and ok: "processTask e cfg task w = Return (None, w')"
  shows "\<exists>uploadID parts.
           calls w' = calls w @
             [Src_GetObject (Bucket task) (Key task),
              Dst_NewMultipartUpload (Bucket task) (Key task) (putOptions task)] @
             map (\<lambda>n. Dst_UploadPart (Bucket task) (Key task) uploadID n
                         (of_int (min (sint (PartSize cfg))
                                      (sint (Size task) - (n - 1) * sint (PartSize cfg)))))
                 [1..\<lceil>(of_int (sint (Size task)) :: rat) / of_int (sint (PartSize cfg))\<rceil>] @
             [Dst_CompleteMultipartUpload (Bucket task) (Key task) uploadID parts, Src_Close] \<and>
           map PartNumber parts =
             [1..\<lceil>(of_int (sint (Size task)) :: rat) / of_int (sint (PartSize cfg))\<rceil>]"
proof -
  let ?pc = "\<lceil>(of_int (sint (Size task)) :: rat) / of_int (sint (PartSize cfg))\<rceil>"
  let ?w1 = "emit (Src_GetObject (Bucket task) (Key task)) w"
  let ?w2 = "emit (Dst_NewMultipartUpload (Bucket task) (Key task) (putOptions task)) ?w1"
  have nb: "\<not> Size task <s MultipartThreshold cfg"
    using big by (simp add: word_sle_eq word_sless_alt)
  have pc: "partCount cfg task = ?pc" by (rule partCount_exact [OF S P])
  from ok obtain w2 where um: "uploadMultipart e cfg task srcObj ?w1 = Return (None, w2)"
    and w': "w' = emit Src_Close w2"
    by (auto simp add: processTask_def Let_def src nb split: result.splits prod.splits)
  from um obtain uploadID parts w3 where
    up: "uploadParts e cfg task uploadID ?pc 1 [] srcObj ?w2 = Return (Inr parts, w3)"
    and w2: "w2 = emit (Dst_CompleteMultipartUpload (Bucket task) (Key task) uploadID parts) w3"
    by (auto simp add: uploadMultipart_def Let_def pc
        split: sum.splits result.splits prod.splits if_splits)
  have en: "sint (Size task) - (1 - 1) * sint (PartSize cfg) \<le> int (remaining srcObj)"
    using enough S by simp
  have "calls w3 = calls ?w2 @
      map (\<lambda>i. Dst_UploadPart (Bucket task) (Key task) uploadID i
                  (of_int (min (sint (PartSize cfg))
                               (sint (Size task) - (i - 1) * sint (PartSize cfg))))) [1..?pc] \<and>
      map PartNumber parts = map PartNumber [] @ [1..?pc]"
    using uploadParts_success [OF S P refl _ en up] by simp
  then show ?thesis by (auto simp add: w' w2)
qed

lemma part_calls_0: "part_calls cfg task uid rd 0 = []"
  by (simp add: part_calls_def)

lemma part_calls_Suc:
  "part_calls cfg task uid rd (Suc k) =
     part_calls cfg task uid rd k @
     [Dst_UploadPart (Bucket task) (Key task) uid (int (Suc k))
        (of_nat (fst (part_read cfg task rd (Suc k))))]"
  by (simp add: part_calls_def)

lemma ReadFull_part:
  "ReadFull (stream_after cfg task rd k) (nat (sint (partSizeOf cfg task (int (Suc k))))) =
     (fst (part_read cfg task rd (Suc k)), snd (part_read cfg task rd (Suc k)),
      stream_after cfg task rd (Suc k))"
  by (simp add: part_read_def split: prod.splits)

lemma no_Complete_in_part_calls: "\<not> list_ex isComplete (part_calls cfg task uid rd k)"
  by (simp add: part_calls_def list_ex_iff)

lemma uploadParts_part_failure:
  "j - Suc k = d \<Longrightarrow> Suc k \<le> j \<Longrightarrow> int j \<le> pc \<Longrightarrow> n = int (Suc k) \<Longrightarrow>
   \<forall>i\<in>{1..j}. \<not> partSizeOf cfg task (int i) <s 0 \<Longrightarrow>
   \<forall>i\<in>{1..<j}. \<not> read_fails cfg task rd i \<and> \<not> isl (upload_answer e cfg task uid rd h i) \<Longrightarrow>
   read_fails cfg task rd j \<or> isl (upload_answer e cfg task uid rd h j) \<Longrightarrow>
   calls w0 = h @ part_calls cfg task uid rd k \<Longrightarrow>
   uploadParts e cfg task uid pc n parts (stream_after cfg task rd k) w0 =
     Return (Inl (part_error e cfg task uid rd h j),
             w0\<lparr>calls := h @ part_calls cfg task uid rd (if read_fails cfg task rd j then j - 1 else j) @
                            [Dst_AbortMultipartUpload (Bucket task) (Key task) uid]\<rparr>)"
proof (induction d arbitrary: k n parts w0)
  case 0
  then have jk: "j = Suc k" by simp
  have le: "n \<le> pc" using "0.prems" by simp
  have n: "n = int (Suc k)" by (rule "0.prems"(4))
  have "Suc k \<in> {1..j}" by (simp add: jk)
  with "0.prems"(5) have nonneg: "\<not> partSizeOf cfg task n <s 0" unfolding n by blast
  note rf = ReadFull_part [of cfg task rd k, folded n]
  note w0 = "0.prems"(8)
  show ?case
  proof (cases "read_fails cfg task rd j")
    case True
    then have rfk: "read_fails cfg task rd (Suc k)" by (simp add: jk)
    then obtain rerr where rerr: "snd (part_read cfg task rd (Suc k)) = Some rerr"
      and ne: "rerr \<noteq> io_ErrUnexpectedEOF"
      by (auto simp add: read_fails_def split: option.splits)
    have pe: "part_error e cfg task uid rd h (Suc k) =
                ''failed to read part '' @ Itoa n @ '': '' @ io_Error rerr"
      using rfk by (simp add: part_error_def rerr n)
    show ?thesis
      unfolding jk
      by (subst uploadParts.simps) (simp add: le nonneg Let_def rf rerr ne pe rfk emit_def w0)
  next
    case False
    then have nrk: "\<not> read_fails cfg task rd (Suc k)" by (simp add: jk)
    from False "0.prems"(7) have up: "isl (upload_answer e cfg task uid rd h (Suc k))"
      by (simp add: jk)
    then obtain uerr where uerr: "upload_answer e cfg task uid rd h (Suc k) = Inl uerr"
      by (cases "upload_answer e cfg task uid rd h (Suc k)") simp_all
    from nrk have tol: "snd (part_read cfg task rd (Suc k)) = None \<or>
                        snd (part_read cfg task rd (Suc k)) = Some io_ErrUnexpectedEOF"
      by (auto simp add: read_fails_def split: option.splits)
    have ans: "dst_UploadPart e (h @ part_calls cfg task uid rd k @
                 [Dst_UploadPart (Bucket task) (Key task) uid n
                    (of_nat (fst (part_read cfg task rd (Suc k))))]) = Inl uerr"
      using uerr by (simp add: upload_answer_def part_calls_Suc n)
    have pe: "part_error e cfg task uid rd h (Suc k) =
                ''failed to upload part '' @ Itoa n @ '': '' @ uerr"
      using nrk by (simp add: part_error_def uerr n)
    have pcs: "part_calls cfg task uid rd (Suc k) =
                 part_calls cfg task uid rd k @
                 [Dst_UploadPart (Bucket task) (Key task) uid n
                    (of_nat (fst (part_read cfg task rd (Suc k))))]"
      by (simp add: part_calls_Suc n)
    show ?thesis
      unfolding jk
      using tol
      by (subst uploadParts.simps)
        (auto simp add: le nonneg Let_def rf pe nrk emit_def w0 ans pcs)
  qed
next
  case (Suc d)
  then have lt: "Suc k < j" by simp
  have le: "n \<le> pc" using Suc.prems lt by simp
  have n: "n = int (Suc k)" by (rule Suc.prems(4))
  have "Suc k \<in> {1..j}" using lt by simp
  with Suc.prems(5) have nonneg: "\<not> partSizeOf cfg task n <s 0" unfolding n by blast
  note rf = ReadFull_part [of cfg task rd k, folded n]
  note w0 = Suc.prems(8)
  have "Suc k \<in> {1..<j}" using lt by simp
  with Suc.prems(6) have ok: "\<not> read_fails cfg task rd (Suc k)"
    and up: "\<not> isl (upload_answer e cfg task uid rd h (Suc k))" by blast+
  from ok have tol: "\<not> (snd (part_read cfg task rd (Suc k)) \<noteq> None \<and>
                         snd (part_read cfg task rd (Suc k)) \<noteq> Some io_ErrUnexpectedEOF)"
    by (auto simp add: read_fails_def split: option.splits)
  from up obtain etag where etag: "upload_answer e cfg task uid rd h (Suc k) = Inr etag"
    by (cases "upload_answer e cfg task uid rd h (Suc k)") simp_all
  let ?c = "Dst_UploadPart (Bucket task) (Key task) uid n (of_nat (fst (part_read cfg task rd (Suc k))))"
  have ans: "dst_UploadPart e (calls w0 @ [?c]) = Inr etag"
    using etag by (simp add: upload_answer_def part_calls_Suc n w0)
  have w1: "calls (emit ?c w0) = h @ part_calls cfg task uid rd (Suc k)"
    by (simp add: part_calls_Suc n w0)
  have d: "j - Suc (Suc k) = d" using Suc.prems(1) by simp
  have n': "n + 1 = int (Suc (Suc k))" by (simp add: n)
  have ih: "uploadParts e cfg task uid pc (n + 1) (parts @ [\<lparr>PartNumber = n, cETag = etag\<rparr>])
              (stream_after cfg task rd (Suc k)) (emit ?c w0) =
            Return (Inl (part_error e cfg task uid rd h j),
              (emit ?c w0)\<lparr>calls := h @ part_calls cfg task uid rd (if read_fails cfg task rd j then j - 1 else j) @
                            [Dst_AbortMultipartUpload (Bucket task) (Key task) uid]\<rparr>)"
    using lt by (intro Suc.IH [OF d _ Suc.prems(3) n' Suc.prems(5,6,7) w1]) simp
  have step: "uploadParts e cfg task uid pc n parts (stream_after cfg task rd k) w0 =
              uploadParts e cfg task uid pc (n + 1) (parts @ [\<lparr>PartNumber = n, cETag = etag\<rparr>])
                (stream_after cfg task rd (Suc k)) (emit ?c w0)"
    using tol by (subst uploadParts.simps) (auto simp add: le nonneg Let_def rf ans simp del: stream_after.simps)
  show ?case unfolding step ih by (simp add: emit_def)
qed

text \<open>
  Claim C2, as the code has it. In a multipart transfer whose upload was initiated, let
  part \<open>j\<close> be the first part that fails: its read returns an error other than
  \<open>io.ErrUnexpectedEOF\<close>, or its upload is refused, and no part before it failed. Then
  \<open>uploadMultipart\<close> returns the error of the part, wrapped, and the calls it made are
  the \<open>NewMultipartUpload\<close>, the \<open>UploadPart\<close> calls of the parts before \<open>j\<close> (and of \<open>j\<close>,
  when it is the upload that failed) and, last, \<open>AbortMultipartUpload\<close> for the upload
  id that \<open>NewMultipartUpload\<close> returned: no \<open>CompleteMultipartUpload\<close> is made. The parts
  up to \<open>j\<close> have no negative size (the allocation of the buffer would panic).
\<close>

theorem part_failure_aborts_upload:
  assumes init: "dst_NewMultipartUpload e
                   (calls w @ [Dst_NewMultipartUpload (Bucket task) (Key task) (putOptions task)]) = Inr uploadID"
    and j: "1 \<le> j" "int j \<le> partCount cfg task"
    and sizes: "\<forall>i\<in>{1..j}. \<not> partSizeOf cfg task (int i) <s 0"
    and before: "\<forall>i\<in>{1..<j}. \<not> read_fails cfg task rd i \<and>
                   \<not> isl (upload_answer e cfg task uploadID rd
                            (calls w @ [Dst_NewMultipartUpload (Bucket task) (Key task) (putOptions task)]) i)"
    and fails: "read_fails cfg task rd j \<or>
                isl (upload_answer e cfg task uploadID rd
                       (calls w @ [Dst_NewMultipartUpload (Bucket task) (Key task) (putOptions task)]) j)"
  shows "let cs = [Dst_NewMultipartUpload (Bucket task) (Key task) (putOptions task)] @
                  part_calls cfg task uploadID rd (if read_fails cfg task rd j then j - 1 else j) @
                  [Dst_AbortMultipartUpload (Bucket task) (Key task) uploadID]
         in uploadMultipart e cfg task rd w =
              Return (Some (part_error e cfg task uploadID rd
                              (calls w @ [Dst_NewMultipartUpload (Bucket task) (Key task) (putOptions task)]) j),
                      w\<lparr>calls := calls w @ cs\<rparr>) \<and>
            \<not> list_ex isComplete cs"
proof -
  let ?new = "Dst_NewMultipartUpload (Bucket task) (Key task) (putOptions task)"
  let ?h = "calls w @ [?new]"
  let ?k = "if read_fails cfg task rd j then j - 1 else j"
  have pc: "\<not> partCount cfg task < 0" using j by simp
  have w1: "calls (emit ?new w) = ?h @ part_calls cfg task uploadID rd 0"
    by (simp add: part_calls_0)
  have j0: "Suc 0 \<le> j" using j(1) by simp
  have up: "uploadParts e cfg task uploadID (partCount cfg task) 1 [] (stream_after cfg task rd 0) (emit ?new w) =
              Return (Inl (part_error e cfg task uploadID rd ?h j),
                (emit ?new w)\<lparr>calls := ?h @ part_calls cfg task uploadID rd ?k @
                            [Dst_AbortMultipartUpload (Bucket task) (Key task) uploadID]\<rparr>)"
    by (rule uploadParts_part_failure [OF refl j0 j(2) _ sizes before fails w1]) simp
  have um: "uploadMultipart e cfg task rd w =
              Return (Some (part_error e cfg task uploadID rd ?h j),
                w\<lparr>calls := calls w @ [?new] @ part_calls cfg task uploadID rd ?k @
                            [Dst_AbortMultipartUpload (Bucket task) (Key task) uploadID]\<rparr>)"
    using init pc up by (simp add: uploadMultipart_def Let_def emit_def)
  have "\<not> list_ex isComplete ([?new] @ part_calls cfg task uploadID rd ?k @
                            [Dst_AbortMultipartUpload (Bucket task) (Key task) uploadID])"
    using no_Complete_in_part_calls [of cfg task uploadID rd ?k] by simp
  with um show ?thesis by (simp add: Let_def)
qed

lemma pc_S2: "partCount default_Config task_S2 = 3"
  by (subst partCount_exact) (simp_all add: default_Config_def task_S2_def ceiling_eq_iff)

lemma ps_S2: "partSizeOf default_Config task_S2 1 = 67108864"
  "partSizeOf default_Config task_S2 2 = 67108864"
  "partSizeOf default_Config task_S2 3 = 65782272"
  by (simp_all add: partSizeOf_def default_Config_def task_S2_def word_sless_alt)








subsection \<open>The scenarios, evaluated\<close>

lemma happy_env_simps [simp]:
  "checkpoint_GetTask (happy_env n) h = Inr None"
  "checkpoint_SaveTask (happy_env n) h = None"
  "dst_HeadObject (happy_env n) h = Inl ''The specified key does not exist.''"
  "src_GetObject (happy_env n) h = Inr \<lparr>remaining = n, read_error = None\<rparr>"
  "dst_PutObject (happy_env n) h = None"
  "dst_NewMultipartUpload (happy_env n) h = Inr ''upload-1''"
  "dst_UploadPart (happy_env n) h = Inr ''etag''"
  "dst_CompleteMultipartUpload (happy_env n) h = None"
  "time_Now (happy_env n) h = int (length h)"
  "strings_ToLower (happy_env n) = ToLower_ascii"
  by (simp_all add: happy_env_def)

lemma task_S2_simps [simp]:
  "Bucket task_S2 = ''b''" "Key task_S2 = ''big''" "Size task_S2 = 200000000"
  "ETag task_S2 = ''abc-3''" "ContentType task_S2 = []" "Metadata task_S2 = []"
  by (simp_all add: task_S2_def)

lemma task_S1_simps [simp]:
  "Bucket task_S1 = ''b''" "Key task_S1 = ''k''" "Size task_S1 = 1024"
  "ETag task_S1 = ''abc''" "ContentType task_S1 = []" "Metadata task_S1 = []"
  by (simp_all add: task_S1_def)

lemma default_Config_simps [simp]:
  "MultipartThreshold default_Config = 104857600" "PartSize default_Config = 67108864"
  "Retries default_Config = 5" "RetryBackoffMs default_Config = 500"
  "SkipExisting default_Config = True"
  by (simp_all add: default_Config_def)

lemma world0_simps [simp]:
  "calls world0 = []" "logs world0 = []" "tracker world0 = NewTracker 0"
  by (simp_all add: world0_def)

lemma uploadParts_S2:
  "uploadParts (happy_env 200000000) default_Config task_S2 u 3 1 []
     \<lparr>remaining = 200000000, read_error = None\<rparr> w =
   Return (Inr [\<lparr>PartNumber = 1, cETag = ''etag''\<rparr>, \<lparr>PartNumber = 2, cETag = ''etag''\<rparr>,
                \<lparr>PartNumber = 3, cETag = ''etag''\<rparr>],
           w\<lparr>calls := calls w @ [Dst_UploadPart ''b'' ''big'' u 1 67108864,
                                  Dst_UploadPart ''b'' ''big'' u 2 67108864,
                                  Dst_UploadPart ''b'' ''big'' u 3 65782272]\<rparr>)"
  by (simp add: uploadParts.simps ps_S2 Let_def ReadFull_def word_sless_alt emit_def)

lemma processTask_S2:
  "processTask (happy_env 200000000) default_Config task_S2 world0 =
    Return (None, world0\<lparr>calls :=
      [Src_GetObject ''b'' ''big'',
       Dst_NewMultipartUpload ''b'' ''big'' (putOptions task_S2),
       Dst_UploadPart ''b'' ''big'' ''upload-1'' 1 67108864,
       Dst_UploadPart ''b'' ''big'' ''upload-1'' 2 67108864,
       Dst_UploadPart ''b'' ''big'' ''upload-1'' 3 65782272,
       Dst_CompleteMultipartUpload ''b'' ''big'' ''upload-1''
         [\<lparr>PartNumber = 1, cETag = ''etag''\<rparr>, \<lparr>PartNumber = 2, cETag = ''etag''\<rparr>,
          \<lparr>PartNumber = 3, cETag = ''etag''\<rparr>],
       Src_Close]\<rparr>)"
  by (simp add: processTask_def uploadMultipart_def Let_def pc_S2 uploadParts_S2
      word_sless_alt emit_def)

theorem multipart_uploads_all_parts_witness:
  "0 \<le> sint (Size task_S2) \<and> sint (Size task_S2) < 2 ^ 53 \<and>
   0 < sint (PartSize default_Config) \<and> sint (PartSize default_Config) < 2 ^ 53 \<and>
   MultipartThreshold default_Config \<le>s Size task_S2 \<and>
   nat (sint (Size task_S2)) \<le> remaining \<lparr>remaining = 200000000, read_error = None\<rparr> \<and>
   (\<exists>uploadID parts.
      [Src_GetObject ''b'' ''big'',
       Dst_NewMultipartUpload ''b'' ''big'' (putOptions task_S2),
       Dst_UploadPart ''b'' ''big'' ''upload-1'' 1 67108864,
       Dst_UploadPart ''b'' ''big'' ''upload-1'' 2 67108864,
       Dst_UploadPart ''b'' ''big'' ''upload-1'' 3 65782272,
       Dst_CompleteMultipartUpload ''b'' ''big'' ''upload-1''
         [\<lparr>PartNumber = 1, cETag = ''etag''\<rparr>, \<lparr>PartNumber = 2, cETag = ''etag''\<rparr>,
          \<lparr>PartNumber = 3, cETag = ''etag''\<rparr>],
       Src_Close] =
      [Src_GetObject ''b'' ''big'', Dst_NewMultipartUpload ''b'' ''big'' (putOptions task_S2)] @
      map (\<lambda>n. Dst_UploadPart ''b'' ''big'' uploadID n
                  (of_int (min 67108864 (200000000 - (n - 1) * 67108864))))
          [1..\<lceil>(200000000 :: rat) / 67108864\<rceil>] @
      [Dst_CompleteMultipartUpload ''b'' ''big'' uploadID parts, Src_Close] \<and>
      map PartNumber parts = [1..\<lceil>(200000000 :: rat) / 67108864\<rceil>])"
proof -
  have h1: "0 \<le> sint (Size task_S2)" and h2: "sint (Size task_S2) < 2 ^ 53"
    and h3: "0 < sint (PartSize default_Config)" and h4: "sint (PartSize default_Config) < 2 ^ 53"
    by simp_all
  have h5: "MultipartThreshold default_Config \<le>s Size task_S2"
    by (simp add: word_sle_eq)
  have h6: "src_GetObject (happy_env 200000000)
              (calls world0 @ [Src_GetObject (Bucket task_S2) (Key task_S2)]) =
            Inr \<lparr>remaining = 200000000, read_error = None\<rparr>"
    by simp
  have h7: "nat (sint (Size task_S2)) \<le> remaining \<lparr>remaining = 200000000, read_error = None\<rparr>"
    by simp
  show ?thesis
    using h1 h2 h3 h4 h5 h7
      multipart_uploads_all_parts [OF h1 h2 h3 h4 h5 h6 h7 processTask_S2]
    by simp
qed

lemma part_read_1:
  "part_read cfg task rd (Suc 0) =
     (case ReadFull rd (nat (sint (partSizeOf cfg task 1))) of (n, rerr, rd') \<Rightarrow> (n, rerr))"
  by (simp add: part_read_def)

lemma part_read_Suc:
  "part_read cfg task rd (Suc (Suc k)) =
     (case ReadFull (stream_after cfg task rd (Suc k))
             (nat (sint (partSizeOf cfg task (int (Suc (Suc k)))))) of
        (n, rerr, rd') \<Rightarrow> (n, rerr))"
  by (simp add: part_read_def)

lemma ball_1_2: "(\<forall>i\<in>{Suc 0..2}. P i) \<longleftrightarrow> P (Suc 0) \<and> P (Suc (Suc 0))"
proof -
  have "{Suc 0..2} = {Suc 0, Suc (Suc 0)}" by auto
  then show ?thesis by simp
qed

lemma ball_1_less_2: "(\<forall>i\<in>{Suc 0..<2}. P i) \<longleftrightarrow> P (Suc 0)"
proof -
  have "{Suc 0..<2} = {Suc 0}" by auto
  then show ?thesis by simp
qed

lemma part_reads_S2:
  "part_read default_Config task_S2 \<lparr>remaining = 200000000, read_error = None\<rparr> (Suc 0) =
     (67108864, None)"
  "part_read default_Config task_S2 \<lparr>remaining = 200000000, read_error = None\<rparr> (Suc (Suc 0)) =
     (67108864, None)"
  by (simp_all add: part_read_1 part_read_Suc ps_S2 ReadFull_def Let_def)

lemma part_reads_reset:
  "part_read default_Config task_S2 reset_stream (Suc 0) = (67108864, None)"
  "part_read default_Config task_S2 reset_stream (Suc (Suc 0)) =
     (32891136, Some (reader_error ''connection reset by peer''))"
  by (simp_all add: part_read_1 part_read_Suc ps_S2 ReadFull_def Let_def reset_stream_def)

lemma part_calls_numeral:
  "part_calls cfg task uid rd 1 = part_calls cfg task uid rd (Suc 0)"
  "part_calls cfg task uid rd 2 = part_calls cfg task uid rd (Suc (Suc 0))"
  by (simp_all add: numeral_2_eq_2)

theorem part_failure_aborts_upload_witness:
  "uploadMultipart ((happy_env 200000000)\<lparr>dst_UploadPart := part2_fails\<rparr>) default_Config task_S2
      \<lparr>remaining = 200000000, read_error = None\<rparr> world0 =
     Return (Some ''failed to upload part 2: connection reset by peer'',
       world0\<lparr>calls := [Dst_NewMultipartUpload ''b'' ''big'' (putOptions task_S2),
                          Dst_UploadPart ''b'' ''big'' ''upload-1'' 1 67108864,
                          Dst_UploadPart ''b'' ''big'' ''upload-1'' 2 67108864,
                          Dst_AbortMultipartUpload ''b'' ''big'' ''upload-1'']\<rparr>) \<and>
   uploadMultipart (happy_env 200000000) default_Config task_S2 reset_stream world0 =
     Return (Some ''failed to read part 2: connection reset by peer'',
       world0\<lparr>calls := [Dst_NewMultipartUpload ''b'' ''big'' (putOptions task_S2),
                          Dst_UploadPart ''b'' ''big'' ''upload-1'' 1 67108864,
                          Dst_AbortMultipartUpload ''b'' ''big'' ''upload-1'']\<rparr>)"
proof -
  let ?e = "(happy_env 200000000)\<lparr>dst_UploadPart := part2_fails\<rparr>"
  let ?rd = "\<lparr>remaining = 200000000, read_error = None\<rparr>"
  let ?h = "calls world0 @ [Dst_NewMultipartUpload (Bucket task_S2) (Key task_S2) (putOptions task_S2)]"
  have j: "1 \<le> (2 :: nat)" "int 2 \<le> partCount default_Config task_S2"
    by (simp_all add: pc_S2)
  have sizes: "\<forall>i\<in>{1..2}. \<not> partSizeOf default_Config task_S2 (int i) <s 0"
    by (simp add: ball_1_2 ps_S2 word_sless_alt)
  have init: "dst_NewMultipartUpload ?e ?h = Inr ''upload-1''"
    by simp
  have before: "\<forall>i\<in>{1..<2}. \<not> read_fails default_Config task_S2 ?rd i \<and>
                  \<not> isl (upload_answer ?e default_Config task_S2 ''upload-1'' ?rd ?h i)"
    by (simp add: ball_1_less_2 read_fails_def part_reads_S2 upload_answer_def part_calls_Suc
        part_calls_0 part2_fails_def)
  have nr: "\<not> read_fails default_Config task_S2 ?rd 2"
    by (simp add: numeral_2_eq_2 read_fails_def part_reads_S2)
  have fails: "read_fails default_Config task_S2 ?rd 2 \<or>
               isl (upload_answer ?e default_Config task_S2 ''upload-1'' ?rd ?h 2)"
    by (simp add: numeral_2_eq_2 upload_answer_def part_calls_Suc part_calls_0 part2_fails_def
        part_reads_S2)
  have upload: "uploadMultipart ?e default_Config task_S2 ?rd world0 =
     Return (Some ''failed to upload part 2: connection reset by peer'',
       world0\<lparr>calls := [Dst_NewMultipartUpload ''b'' ''big'' (putOptions task_S2),
                          Dst_UploadPart ''b'' ''big'' ''upload-1'' 1 67108864,
                          Dst_UploadPart ''b'' ''big'' ''upload-1'' 2 67108864,
                          Dst_AbortMultipartUpload ''b'' ''big'' ''upload-1'']\<rparr>)"
    using part_failure_aborts_upload [OF init j sizes before fails] nr
    by (simp add: Let_def part_error_def numeral_2_eq_2 upload_answer_def part_calls_Suc
        part_calls_0 part2_fails_def part_reads_S2 Itoa_def Itoa_nat.simps)
  let ?e' = "happy_env 200000000"
  have init': "dst_NewMultipartUpload ?e' ?h = Inr ''upload-1''"
    by simp
  have before': "\<forall>i\<in>{1..<2}. \<not> read_fails default_Config task_S2 reset_stream i \<and>
                  \<not> isl (upload_answer ?e' default_Config task_S2 ''upload-1'' reset_stream ?h i)"
    by (simp add: ball_1_less_2 read_fails_def part_reads_reset upload_answer_def)
  have rf: "read_fails default_Config task_S2 reset_stream 2"
    by (simp add: numeral_2_eq_2 read_fails_def part_reads_reset)
  then have fails': "read_fails default_Config task_S2 reset_stream 2 \<or>
               isl (upload_answer ?e' default_Config task_S2 ''upload-1'' reset_stream ?h 2)"
    by simp
  have read: "uploadMultipart ?e' default_Config task_S2 reset_stream world0 =
     Return (Some ''failed to read part 2: connection reset by peer'',
       world0\<lparr>calls := [Dst_NewMultipartUpload ''b'' ''big'' (putOptions task_S2),
                          Dst_UploadPart ''b'' ''big'' ''upload-1'' 1 67108864,
                          Dst_AbortMultipartUpload ''b'' ''big'' ''upload-1'']\<rparr>)"
    using part_failure_aborts_upload [OF init' j sizes before' fails'] rf
    by (simp add: Let_def part_error_def numeral_2_eq_2 part_calls_Suc
        part_calls_0 part_reads_reset Itoa_def Itoa_nat.simps)
  from upload read show ?thesis by simp
qed

subsection \<open>The skip decisions of \<open>Process\<close>\<close>

lemma calls_IncSkippedWithBytes [simp]:
  "calls (IncSkippedWithBytes e n w) = calls w @ [Metrics_objectsTotal_Inc ''skipped'']"
  by (simp add: IncSkippedWithBytes_def Let_def)

lemma tracker_IncSkippedWithBytes [simp]:
  "tracker (IncSkippedWithBytes e n w) =
     AddSkipped (time_Now e (calls w @ [Metrics_objectsTotal_Inc ''skipped''])) n (tracker w)"
  by (simp add: IncSkippedWithBytes_def Let_def)

lemma status_AddSkipped [simp]:
  "SkippedObjects (status (AddSkipped now n t)) = SkippedObjects (status t) + 1"
  "SuccessObjects (status (AddSkipped now n t)) = SuccessObjects (status t)"
  "FailedObjects (status (AddSkipped now n t)) = FailedObjects (status t)"
  "ProcessedBytes (status (AddSkipped now n t)) = ProcessedBytes (status t) + n"
  by (simp_all add: AddSkipped_def updateSpeed_def Let_def)

lemma calls_markCompleted [simp]:
  "calls (markCompleted e task w) = calls w @ [Checkpoint_SaveTask (completedRecord task)]"
  and tracker_markCompleted [simp]: "tracker (markCompleted e task w) = tracker w"
  by (simp_all add: markCompleted_def Let_def split: option.splits)

lemma status_NewTracker [simp]:
  "SkippedObjects (status (NewTracker now)) = 0" "SuccessObjects (status (NewTracker now)) = 0"
  "FailedObjects (status (NewTracker now)) = 0" "ProcessedBytes (status (NewTracker now)) = 0"
  "ProcessedObjects (status (NewTracker now)) = 0"
  by (simp_all add: NewTracker_def)

text \<open>
  Claim C9. With \<open>SkipExisting\<close> set, when the checkpoint lookup returns a record whose
  status is \<open>completed\<close>, \<open>Process\<close> returns after counting the task as skipped with
  \<open>task.Size\<close> bytes: the only calls are the lookup and the increment of the skipped
  counter. Nothing is assumed about the size or the ETag of the record: they are not
  compared with the task's.
\<close>

theorem completed_record_skips:
  assumes "SkipExisting cfg"
    and "checkpoint_GetTask e (calls w @ [Checkpoint_GetTask (Bucket task) (Key task)]) = Inr (Some record)"
    and "rStatus record = StatusCompleted"
  shows "\<exists>w'. Process e cfg task w = Return w' \<and>
           calls w' = calls w @ [Checkpoint_GetTask (Bucket task) (Key task),
                                 Metrics_objectsTotal_Inc ''skipped''] \<and>
           SkippedObjects (status (tracker w')) = SkippedObjects (status (tracker w)) + 1 \<and>
           SuccessObjects (status (tracker w')) = SuccessObjects (status (tracker w)) \<and>
           ProcessedBytes (status (tracker w')) = ProcessedBytes (status (tracker w)) + Size task"
  using assms by (simp add: Process_def Let_def)

theorem completed_record_skips_witness:
  "SkipExisting default_Config \<and>
   rStatus stale_record = StatusCompleted \<and>
   rSize stale_record \<noteq> Size task_S1 \<and> rETag stale_record \<noteq> ETag task_S1 \<and>
   (\<exists>w'. Process ((happy_env 1024)\<lparr>checkpoint_GetTask := \<lambda>h. Inr (Some stale_record)\<rparr>)
            default_Config task_S1 world0 = Return w' \<and>
         calls w' = [Checkpoint_GetTask ''b'' ''k'', Metrics_objectsTotal_Inc ''skipped''] \<and>
         SkippedObjects (status (tracker w')) = 1 \<and>
         SuccessObjects (status (tracker w')) = 0 \<and>
         ProcessedBytes (status (tracker w')) = 1024)"
proof -
  let ?e = "(happy_env 1024)\<lparr>checkpoint_GetTask := \<lambda>h. Inr (Some stale_record)\<rparr>"
  have h1: "SkipExisting default_Config" by simp
  have h2: "checkpoint_GetTask ?e (calls world0 @ [Checkpoint_GetTask (Bucket task_S1) (Key task_S1)]) =
              Inr (Some stale_record)"
    by simp
  have h3: "rStatus stale_record = StatusCompleted" by (simp add: stale_record_def)
  have d: "rSize stale_record \<noteq> Size task_S1 \<and> rETag stale_record \<noteq> ETag task_S1"
    by (simp add: stale_record_def)
  show ?thesis
    using h1 h3 d completed_record_skips [OF h1 h2 h3] by simp
qed



subsection \<open>A retry bound below one\<close>

lemma retryLoop_exhausted:
  "Retries cfg < attempt \<Longrightarrow>
     retryLoop e cfg task startTime attempt None w = Panic nil_dereference w"
  by (simp add: retryLoop.simps finishFailed_def markFailed_def)

text \<open>
  Claim C10. When \<open>Retries\<close> is zero or negative, \<open>Process\<close> either returns from one of
  its two skip decisions or panics with a nil dereference in \<open>markFailed\<close>, the body of
  the retry loop never having run: at the panic the only calls are the checkpoint lookup
  and, with \<open>SkipExisting\<close>, the \<open>HeadObject\<close>. Without \<open>SkipExisting\<close> it always panics.
  \<open>Config.validate\<close> does not look at \<open>Retries\<close>.
\<close>

theorem nonpositive_Retries_panics:
  assumes "Retries cfg \<le> 0"
  shows "(case Process e cfg task w of
            Panic m w' \<Rightarrow>
              m = nil_dereference \<and>
              (calls w' = calls w @ [Checkpoint_GetTask (Bucket task) (Key task)] \<or>
               calls w' = calls w @ [Checkpoint_GetTask (Bucket task) (Key task),
                                     Dst_HeadObject (Bucket task) (Key task)])
          | Return w' \<Rightarrow>
              SkipExisting cfg \<and> last (calls w') = Metrics_objectsTotal_Inc ''skipped'') \<and>
         (\<not> SkipExisting cfg \<longrightarrow>
            Process e cfg task w =
              Panic nil_dereference (emit (Checkpoint_GetTask (Bucket task) (Key task)) w)) \<and>
         validate (c\<lparr>Migration := (Migration c)\<lparr>mRetries := r\<rparr>\<rparr>) = validate c"
proof -
  have r: "Retries cfg < 1" using assms by simp
  have v: "validate (c\<lparr>Migration := (Migration c)\<lparr>mRetries := r\<rparr>\<rparr>) = validate c"
    by (simp add: validate_def)
  show ?thesis
    by (auto simp add: Process_def Let_def retryLoop_exhausted [OF r] v
        objectExistsAndMatches_def split: sum.splits option.splits)
qed

theorem nonpositive_Retries_panics_witness:
  "Retries (default_Config\<lparr>Retries := 0, SkipExisting := False\<rparr>) \<le> 0 \<and>
   Process (happy_env 1024) (default_Config\<lparr>Retries := 0, SkipExisting := False\<rparr>) task_S1 world0 =
     Panic nil_dereference (emit (Checkpoint_GetTask ''b'' ''k'') world0) \<and>
   validate (valid_config\<lparr>Migration := (Migration valid_config)\<lparr>mRetries := 0\<rparr>\<rparr>) = None"
proof -
  let ?cfg = "default_Config\<lparr>Retries := 0, SkipExisting := False\<rparr>"
  have h: "Retries ?cfg \<le> 0" by simp
  have v: "validate valid_config = None"
    by (simp add: validate_def valid_config_def word_sless_alt)
  show ?thesis
    using h v nonpositive_Retries_panics
        [OF h, where e = "happy_env 1024" and task = task_S1 and w = world0
           and c = valid_config and r = 0]
    by simp
qed

subsection \<open>The retry loop\<close>

lemma saved_record_simps [simp]:
  "saved_record (Checkpoint_SaveTask r) = Some r"
  "saved_record (Metrics_objectsTotal_Inc l) = None"
  "saved_record (Metrics_bytesTotal_Add n) = None"
  "saved_record (Metrics_duration_Observe d) = None"
  "saved_record (Time_Sleep dur) = None"
  "saved_record (Src_GetObject b k) = None"
  "saved_record (Checkpoint_GetTask b k) = None"
  "saved_record (Dst_HeadObject b k) = None"
  by (simp_all add: saved_record_def)

lemma in_saved_records: "Checkpoint_SaveTask r \<in> set cs \<longleftrightarrow> r \<in> set (saved_records cs)"
proof (induction cs)
  case Nil
  then show ?case by simp
next
  case (Cons c cs)
  then show ?case by (cases c) (auto simp add: saved_records_Cons saved_record_def)
qed

lemma attempt_failure_simps [simp]:
  "attempt_failure (Log WarnLevel ''Task attempt failed''
      [zap_String k key, zap_Int a attempt, zap_Error (Some err)]) = Some (attempt, err)"
  "attempt_failure (Log ErrorLevel msg fs) = None"
  "attempt_failure (Log InfoLevel msg fs) = None"
  "attempt_failure (Log DebugLevel msg fs) = None"
  "attempt_failure (Log WarnLevel ''Cannot save failed task - database is closed'' fs) = None"
  by (simp_all add: attempt_failure_def)

lemma finishSuccess_trace:
  "finishSuccess e task st w = Return w' \<Longrightarrow>
     \<exists>d ls. calls w' =
            calls w @ [Checkpoint_SaveTask (completedRecord task), Metrics_objectsTotal_Inc ''success'',
                       Metrics_bytesTotal_Add (Size task), Metrics_duration_Observe d] \<and>
          logs w' = logs w @ ls \<and> attempt_failures ls = []"
  by (auto simp add: finishSuccess_def Let_def IncSuccessWithBytes_def AddBytes_def ObserveDuration_def
      markCompleted_def attempt_failures_Cons split: option.splits if_splits)

lemma finishFailed_trace:
  "finishFailed e task lastErr w = Return w' \<Longrightarrow>
     \<exists>msg ls. lastErr = Some msg \<and>
       calls w' = calls w @ [Checkpoint_SaveTask (failedRecord task msg), Metrics_objectsTotal_Inc ''failed''] \<and>
       logs w' = logs w @ ls \<and> attempt_failures ls = []"
  by (cases lastErr)
    (auto simp add: finishFailed_def markFailed_def Let_def IncFailed_def attempt_failures_Cons
      split: option.splits if_splits)

lemma retryLoop_outcome:
  "retryLoop e cfg task st a le w = Return w' \<Longrightarrow>
   \<exists>cs ls. calls w' = calls w @ cs \<and> logs w' = logs w @ ls \<and>
      map fst (attempt_failures ls) = [a..a + int (length (attempt_failures ls)) - 1] \<and>
      ((saved_records cs = [completedRecord task] \<and>
        Metrics_objectsTotal_Inc ''success'' \<in> set cs \<and>
        Metrics_objectsTotal_Inc ''failed'' \<notin> set cs \<and>
        length (filter isGetObject cs) = length (attempt_failures ls) + 1 \<and>
        a + int (length (attempt_failures ls)) \<le> Retries cfg \<and>
        (\<forall>p \<in> set (attempt_failures ls). isRetriableError e (Some (snd p))))
       \<or>
       (\<exists>msg. saved_records cs = [failedRecord task msg] \<and>
        Metrics_objectsTotal_Inc ''failed'' \<in> set cs \<and>
        Metrics_objectsTotal_Inc ''success'' \<notin> set cs \<and>
        length (filter isGetObject cs) = length (attempt_failures ls) \<and>
        (\<forall>p \<in> set (butlast (attempt_failures ls)). isRetriableError e (Some (snd p))) \<and>
        (if attempt_failures ls = [] then Retries cfg < a \<and> le = Some msg
         else msg = snd (last (attempt_failures ls)) \<and>
              (a + int (length (attempt_failures ls)) - 1 = Retries cfg \<or>
               \<not> isRetriableError e (Some msg)))))"
proof (induction e cfg task st a le w arbitrary: w' rule: retryLoop.induct)
  case (1 e cfg task startTime attempt lastErr w)
  note run = "1.prems"
  show ?case
  proof (cases "attempt \<le> Retries cfg")
    case False
    with run have "finishFailed e task lastErr w = Return w'"
      by (simp add: retryLoop.simps)
    from finishFailed_trace [OF this] obtain msg ls where
      f: "lastErr = Some msg"
         "calls w' = calls w @ [Checkpoint_SaveTask (failedRecord task msg), Metrics_objectsTotal_Inc ''failed'']"
         "logs w' = logs w @ ls" "attempt_failures ls = []"
      by blast
    show ?thesis
      apply (rule exI [where x = "[Checkpoint_SaveTask (failedRecord task msg), Metrics_objectsTotal_Inc ''failed'']"])
      apply (rule exI [where x = ls])
      using f False by (simp add: saved_records_Cons)
  next
    case le: True
    show ?thesis
    proof (cases "processTask e cfg task w")
      case (Panic m w1)
      with run le show ?thesis by (simp add: retryLoop.simps)
    next
      case (Return x)
      obtain r w1 where x: "x = (r, w1)" by (cases x)
      have "case Return (r, w1) of
              Return (err, w') \<Rightarrow>
                (\<exists>cs. calls w' = calls w @ Src_GetObject (Bucket task) (Key task) # cs \<and>
                      list_all upload_call cs) \<and>
                logs w' = logs w \<and> tracker w' = tracker w
            | Panic m w' \<Rightarrow>
                (\<exists>cs. calls w' = calls w @ Src_GetObject (Bucket task) (Key task) # cs \<and>
                      list_all upload_call cs) \<and>
                logs w' = logs w \<and> tracker w' = tracker w"
        using Return x by (intro processTask_frame) simp
      then obtain pcs where
        pc: "calls w1 = calls w @ Src_GetObject (Bucket task) (Key task) # pcs"
        and up: "list_all upload_call pcs" and pl: "logs w1 = logs w"
        by auto
      note u = upload_calls_only [OF up]
      show ?thesis
      proof (cases r)
        case None
        with run le Return x have "finishSuccess e task startTime w1 = Return w'"
          by (simp add: retryLoop.simps)
        from finishSuccess_trace [OF this] obtain d ls where
          s: "calls w' =
                calls w1 @ [Checkpoint_SaveTask (completedRecord task), Metrics_objectsTotal_Inc ''success'',
                            Metrics_bytesTotal_Add (Size task), Metrics_duration_Observe d]"
             "logs w' = logs w1 @ ls" "attempt_failures ls = []"
          by blast
        show ?thesis
          apply (rule exI [where x = "Src_GetObject (Bucket task) (Key task) # pcs @
                   [Checkpoint_SaveTask (completedRecord task), Metrics_objectsTotal_Inc ''success'',
                    Metrics_bytesTotal_Add (Size task), Metrics_duration_Observe d]"])
          apply (rule exI [where x = ls])
          using s u le pc pl by (simp add: saved_records_Cons)
      next
        case (Some err)
        let ?warn = "Log WarnLevel ''Task attempt failed''
                       [zap_String ''key'' (Key task), zap_Int ''attempt'' attempt, zap_Error (Some err)]"
        let ?w2 = "logger WarnLevel ''Task attempt failed''
                     [zap_String ''key'' (Key task), zap_Int ''attempt'' attempt, zap_Error (Some err)] w1"
        have c2: "calls ?w2 = calls w @ Src_GetObject (Bucket task) (Key task) # pcs"
          and l2: "logs ?w2 = logs w @ [?warn]"
          using pc pl by simp_all
        show ?thesis
        proof (cases "isRetriableError e (Some err)")
          case False
          with run le Return x Some have "finishFailed e task (Some err) ?w2 = Return w'"
            by (simp add: retryLoop.simps Let_def)
          from finishFailed_trace [OF this] obtain ls where
            f: "calls w' = calls ?w2 @ [Checkpoint_SaveTask (failedRecord task err), Metrics_objectsTotal_Inc ''failed'']"
               "logs w' = logs ?w2 @ ls" "attempt_failures ls = []"
            by auto
          show ?thesis
            apply (rule exI [where x = "Src_GetObject (Bucket task) (Key task) # pcs @
                     [Checkpoint_SaveTask (failedRecord task err), Metrics_objectsTotal_Inc ''failed'']"])
            apply (rule exI [where x = "?warn # ls"])
            using f u c2 l2 False by (simp add: saved_records_Cons attempt_failures_Cons)
        next
          case retriable: True
          define wn where "wn = (if attempt < Retries cfg
                                 then emit (Time_Sleep (calculateBackoff cfg attempt)) ?w2 else ?w2)"
          define sl where "sl = (if attempt < Retries cfg
                                 then [Time_Sleep (calculateBackoff cfg attempt)] else [])"
          have cn: "calls wn = calls w @ Src_GetObject (Bucket task) (Key task) # pcs @ sl"
            and ln: "logs wn = logs w @ [?warn]"
            using c2 l2 by (simp_all add: wn_def sl_def)
          have next_run: "retryLoop e cfg task startTime (attempt + 1) (Some err) wn = Return w'"
            using run le Return x Some retriable
            by (subst (asm) retryLoop.simps) (auto simp add: Let_def wn_def split: if_splits)
          have ih: "\<exists>cs ls. calls w' = calls wn @ cs \<and> logs w' = logs wn @ ls \<and>
              map fst (attempt_failures ls) =
                [attempt + 1..attempt + 1 + int (length (attempt_failures ls)) - 1] \<and>
              ((saved_records cs = [completedRecord task] \<and>
                Metrics_objectsTotal_Inc ''success'' \<in> set cs \<and>
                Metrics_objectsTotal_Inc ''failed'' \<notin> set cs \<and>
                length (filter isGetObject cs) = length (attempt_failures ls) + 1 \<and>
                attempt + 1 + int (length (attempt_failures ls)) \<le> Retries cfg \<and>
                (\<forall>p \<in> set (attempt_failures ls). isRetriableError e (Some (snd p))))
               \<or>
               (\<exists>msg. saved_records cs = [failedRecord task msg] \<and>
                Metrics_objectsTotal_Inc ''failed'' \<in> set cs \<and>
                Metrics_objectsTotal_Inc ''success'' \<notin> set cs \<and>
                length (filter isGetObject cs) = length (attempt_failures ls) \<and>
                (\<forall>p \<in> set (butlast (attempt_failures ls)). isRetriableError e (Some (snd p))) \<and>
                (if attempt_failures ls = [] then Retries cfg < attempt + 1 \<and> Some err = Some msg
                 else msg = snd (last (attempt_failures ls)) \<and>
                      (attempt + 1 + int (length (attempt_failures ls)) - 1 = Retries cfg \<or>
                       \<not> isRetriableError e (Some msg)))))"
          proof (cases "attempt < Retries cfg")
            case True
            show ?thesis
              using "1.IH"(1) [OF le Return x [symmetric] Some refl _ True, of w'] retriable next_run True
              by (simp add: wn_def)
          next
            case False
            show ?thesis
              using "1.IH"(2) [OF le Return x [symmetric] Some refl _ False, of w'] retriable next_run False
              by (simp add: wn_def)
          qed
          then obtain cs ls where
            c: "calls w' = calls wn @ cs" and l: "logs w' = logs wn @ ls"
            and nums: "map fst (attempt_failures ls) =
                         [attempt + 1..attempt + 1 + int (length (attempt_failures ls)) - 1]"
            and alt: "(saved_records cs = [completedRecord task] \<and>
                Metrics_objectsTotal_Inc ''success'' \<in> set cs \<and>
                Metrics_objectsTotal_Inc ''failed'' \<notin> set cs \<and>
                length (filter isGetObject cs) = length (attempt_failures ls) + 1 \<and>
                attempt + 1 + int (length (attempt_failures ls)) \<le> Retries cfg \<and>
                (\<forall>p \<in> set (attempt_failures ls). isRetriableError e (Some (snd p))))
               \<or>
               (\<exists>msg. saved_records cs = [failedRecord task msg] \<and>
                Metrics_objectsTotal_Inc ''failed'' \<in> set cs \<and>
                Metrics_objectsTotal_Inc ''success'' \<notin> set cs \<and>
                length (filter isGetObject cs) = length (attempt_failures ls) \<and>
                (\<forall>p \<in> set (butlast (attempt_failures ls)). isRetriableError e (Some (snd p))) \<and>
                (if attempt_failures ls = [] then Retries cfg < attempt + 1 \<and> Some err = Some msg
                 else msg = snd (last (attempt_failures ls)) \<and>
                      (attempt + 1 + int (length (attempt_failures ls)) - 1 = Retries cfg \<or>
                       \<not> isRetriableError e (Some msg))))"
            by blast
          let ?fs = "attempt_failures ls"
          let ?cs = "Src_GetObject (Bucket task) (Key task) # pcs @ sl @ cs"
          have af: "attempt_failures (?warn # ls) = (attempt, err) # ?fs"
            by (simp add: attempt_failures_Cons)
          have sr: "saved_records ?cs = saved_records cs"
            using u by (simp add: saved_records_Cons sl_def)
          have go: "length (filter isGetObject ?cs) = length (filter isGetObject cs) + 1"
            using u by (simp add: sl_def)
          have mem: "\<And>l. Metrics_objectsTotal_Inc l \<in> set ?cs \<longleftrightarrow> Metrics_objectsTotal_Inc l \<in> set cs"
            using u by (auto simp add: sl_def)
          have upto: "[attempt..attempt + int (length ((attempt, err) # ?fs)) - 1] =
                      attempt # [attempt + 1..attempt + 1 + int (length ?fs) - 1]"
            by (subst upto_rec1) (simp_all add: algebra_simps)
          have numbers: "map fst ((attempt, err) # ?fs) =
                           [attempt..attempt + int (length ((attempt, err) # ?fs)) - 1]"
            unfolding upto using nums by simp
          from alt have "(saved_records ?cs = [completedRecord task] \<and>
                Metrics_objectsTotal_Inc ''success'' \<in> set ?cs \<and>
                Metrics_objectsTotal_Inc ''failed'' \<notin> set ?cs \<and>
                length (filter isGetObject ?cs) = length ((attempt, err) # ?fs) + 1 \<and>
                attempt + int (length ((attempt, err) # ?fs)) \<le> Retries cfg \<and>
                (\<forall>p \<in> set ((attempt, err) # ?fs). isRetriableError e (Some (snd p))))
               \<or>
               (\<exists>msg. saved_records ?cs = [failedRecord task msg] \<and>
                Metrics_objectsTotal_Inc ''failed'' \<in> set ?cs \<and>
                Metrics_objectsTotal_Inc ''success'' \<notin> set ?cs \<and>
                length (filter isGetObject ?cs) = length ((attempt, err) # ?fs) \<and>
                (\<forall>p \<in> set (butlast ((attempt, err) # ?fs)). isRetriableError e (Some (snd p))) \<and>
                (if (attempt, err) # ?fs = [] then Retries cfg < attempt \<and> lastErr = Some msg
                 else msg = snd (last ((attempt, err) # ?fs)) \<and>
                      (attempt + int (length ((attempt, err) # ?fs)) - 1 = Retries cfg \<or>
                       \<not> isRetriableError e (Some msg))))"
          proof (elim disjE conjE exE)
            assume "saved_records cs = [completedRecord task]"
              "Metrics_objectsTotal_Inc ''success'' \<in> set cs"
              "Metrics_objectsTotal_Inc ''failed'' \<notin> set cs"
              "length (filter isGetObject cs) = length ?fs + 1"
              "attempt + 1 + int (length ?fs) \<le> Retries cfg"
              "\<forall>p \<in> set ?fs. isRetriableError e (Some (snd p))"
            then show ?thesis
              unfolding sr go mem using retriable by simp
          next
            fix msg
            assume a: "saved_records cs = [failedRecord task msg]"
              "Metrics_objectsTotal_Inc ''failed'' \<in> set cs"
              "Metrics_objectsTotal_Inc ''success'' \<notin> set cs"
              "length (filter isGetObject cs) = length ?fs"
              "\<forall>p \<in> set (butlast ?fs). isRetriableError e (Some (snd p))"
              and b: "if ?fs = [] then Retries cfg < attempt + 1 \<and> Some err = Some msg
                 else msg = snd (last ?fs) \<and>
                      (attempt + 1 + int (length ?fs) - 1 = Retries cfg \<or>
                       \<not> isRetriableError e (Some msg))"
            have "msg = snd (last ((attempt, err) # ?fs)) \<and>
                  (attempt + int (length ((attempt, err) # ?fs)) - 1 = Retries cfg \<or>
                   \<not> isRetriableError e (Some msg))"
              using b le by (cases "?fs = []") (auto simp add: algebra_simps)
            moreover have "\<forall>p \<in> set (butlast ((attempt, err) # ?fs)). isRetriableError e (Some (snd p))"
              using a(5) retriable by (cases "?fs = []") auto
            ultimately show ?thesis
              unfolding sr go mem using a(1-4) by auto
          qed
          then show ?thesis
            apply (intro exI [where x = ?cs] exI [where x = "?warn # ls"])
            apply (intro conjI)
            subgoal using c cn by simp
            subgoal using l ln by simp
            subgoal unfolding af by (rule numbers)
            subgoal unfolding af by simp
            done
        qed
      qed
    qed
  qed
qed

lemma Process_outcome:
  assumes "Process e cfg task w = Return w'"
  shows "(calls w' = calls w @ [Checkpoint_GetTask (Bucket task) (Key task),
                               Metrics_objectsTotal_Inc ''skipped''] \<and>
          attempt_failures (drop (length (logs w)) (logs w')) = []) \<or>
         (calls w' = calls w @ [Checkpoint_GetTask (Bucket task) (Key task),
                               Dst_HeadObject (Bucket task) (Key task),
                               Checkpoint_SaveTask (completedRecord task),
                               Metrics_objectsTotal_Inc ''skipped''] \<and>
          attempt_failures (drop (length (logs w)) (logs w')) = []) \<or>
         (\<exists>pre w0. (pre = [Checkpoint_GetTask (Bucket task) (Key task)] \<or>
                    pre = [Checkpoint_GetTask (Bucket task) (Key task),
                           Dst_HeadObject (Bucket task) (Key task)]) \<and>
                   calls w0 = calls w @ pre \<and> logs w0 = logs w \<and>
                   retryLoop e cfg task (time_Now e (calls w)) 1 None w0 = Return w')"
proof -
  let ?w1 = "emit (Checkpoint_GetTask (Bucket task) (Key task)) w"
  let ?w2 = "emit (Dst_HeadObject (Bucket task) (Key task)) ?w1"
  have "Process e cfg task w =
       Return (IncSkippedWithBytes e (Size task)
                 (logger DebugLevel ''Skipping completed task'' [zap_String ''key'' (Key task)] ?w1)) \<or>
     Process e cfg task w =
       Return (IncSkippedWithBytes e (Size task)
                 (markCompleted e task
                    (logger DebugLevel ''Skipping existing object'' [zap_String ''key'' (Key task)] ?w2))) \<or>
     Process e cfg task w = retryLoop e cfg task (time_Now e (calls w)) 1 None ?w1 \<or>
     Process e cfg task w = retryLoop e cfg task (time_Now e (calls w)) 1 None ?w2"
    unfolding Process_def Let_def objectExistsAndMatches_def
    by (simp split: sum.splits)
  then consider
    (skip1) "Process e cfg task w =
       Return (IncSkippedWithBytes e (Size task)
                 (logger DebugLevel ''Skipping completed task'' [zap_String ''key'' (Key task)] ?w1))"
  | (skip2) "Process e cfg task w =
       Return (IncSkippedWithBytes e (Size task)
                 (markCompleted e task
                    (logger DebugLevel ''Skipping existing object'' [zap_String ''key'' (Key task)] ?w2)))"
  | (loop1) "Process e cfg task w = retryLoop e cfg task (time_Now e (calls w)) 1 None ?w1"
  | (loop2) "Process e cfg task w = retryLoop e cfg task (time_Now e (calls w)) 1 None ?w2"
    by blast
  then show ?thesis
  proof cases
    case skip1
    with assms have "w' = IncSkippedWithBytes e (Size task)
                 (logger DebugLevel ''Skipping completed task'' [zap_String ''key'' (Key task)] ?w1)"
      by simp
    then show ?thesis
      by (simp add: IncSkippedWithBytes_def Let_def attempt_failures_Cons)
  next
    case skip2
    with assms have "w' = IncSkippedWithBytes e (Size task)
                 (markCompleted e task
                    (logger DebugLevel ''Skipping existing object'' [zap_String ''key'' (Key task)] ?w2))"
      by simp
    then show ?thesis
      by (auto simp add: IncSkippedWithBytes_def Let_def markCompleted_def attempt_failures_Cons
          split: option.splits)
  next
    case loop1
    with assms show ?thesis
      by (intro disjI2 exI [where x = "[Checkpoint_GetTask (Bucket task) (Key task)]"]
          exI [where x = ?w1]) simp
  next
    case loop2
    with assms show ?thesis
      by (intro disjI2 exI [where x = "[Checkpoint_GetTask (Bucket task) (Key task),
                           Dst_HeadObject (Bucket task) (Key task)]"]
          exI [where x = ?w2]) simp
  qed
qed

lemma status_distinct: "StatusCompleted \<noteq> StatusFailed"
  by (simp add: StatusCompleted_def StatusFailed_def)

text \<open>
  Claim C3. A run of \<open>Process\<close> that saves a record with status \<open>failed\<close>: the attempts
  that were logged as failed are numbered \<open>1, \<dots>, k\<close> with \<open>k \<ge> 1\<close>, each is one
  \<open>GetObject\<close> on the source, the saved error is the error of attempt \<open>k\<close>, every earlier
  error was retriable, and either \<open>k = Retries\<close> or the error of attempt \<open>k\<close> is not
  retriable (then the loop was left and no further attempt made).
\<close>

theorem retry_law:
  assumes run: "Process e cfg task w = Return w'"
    and marked: "Checkpoint_SaveTask r \<in> set (drop (length (calls w)) (calls w'))"
    and failed: "rStatus r = StatusFailed"
  shows "let cs = drop (length (calls w)) (calls w');
             fs = attempt_failures (drop (length (logs w)) (logs w'))
         in fs \<noteq> [] \<and> map fst fs = [1..int (length fs)] \<and>
            length (filter isGetObject cs) = length fs \<and>
            r = failedRecord task (snd (last fs)) \<and>
            (\<forall>p \<in> set (butlast fs). isRetriableError e (Some (snd p))) \<and>
            (int (length fs) = Retries cfg \<or> \<not> isRetriableError e (Some (snd (last fs))))"
proof -
  have rc: "r \<noteq> completedRecord task"
    using failed status_distinct by (auto simp add: completedRecord_def)
  from Process_outcome [OF run] marked rc obtain pre w0 where
    pre: "pre = [Checkpoint_GetTask (Bucket task) (Key task)] \<or>
          pre = [Checkpoint_GetTask (Bucket task) (Key task), Dst_HeadObject (Bucket task) (Key task)]"
    and w0: "calls w0 = calls w @ pre" "logs w0 = logs w"
    and loop: "retryLoop e cfg task (time_Now e (calls w)) 1 None w0 = Return w'"
    by auto
  from retryLoop_outcome [OF loop] obtain cs ls where
    c: "calls w' = calls w0 @ cs" and l: "logs w' = logs w0 @ ls"
    and nums: "map fst (attempt_failures ls) = [1..1 + int (length (attempt_failures ls)) - 1]"
    and alt: "(saved_records cs = [completedRecord task] \<and>
        Metrics_objectsTotal_Inc ''success'' \<in> set cs \<and>
        Metrics_objectsTotal_Inc ''failed'' \<notin> set cs \<and>
        length (filter isGetObject cs) = length (attempt_failures ls) + 1 \<and>
        1 + int (length (attempt_failures ls)) \<le> Retries cfg \<and>
        (\<forall>p \<in> set (attempt_failures ls). isRetriableError e (Some (snd p))))
       \<or>
       (\<exists>msg. saved_records cs = [failedRecord task msg] \<and>
        Metrics_objectsTotal_Inc ''failed'' \<in> set cs \<and>
        Metrics_objectsTotal_Inc ''success'' \<notin> set cs \<and>
        length (filter isGetObject cs) = length (attempt_failures ls) \<and>
        (\<forall>p \<in> set (butlast (attempt_failures ls)). isRetriableError e (Some (snd p))) \<and>
        (if attempt_failures ls = [] then Retries cfg < 1 \<and> None = Some msg
         else msg = snd (last (attempt_failures ls)) \<and>
              (1 + int (length (attempt_failures ls)) - 1 = Retries cfg \<or>
               \<not> isRetriableError e (Some msg))))"
    by blast
  have new_calls: "drop (length (calls w)) (calls w') = pre @ cs" using c w0 by simp
  have new_logs: "drop (length (logs w)) (logs w') = ls" using l w0 by simp
  have "r \<in> set (saved_records (pre @ cs))"
    using marked unfolding new_calls by (simp only: in_saved_records)
  moreover have "saved_records (pre @ cs) = saved_records cs"
    using pre by (auto simp add: saved_records_Cons)
  ultimately have rin: "r \<in> set (saved_records cs)" by simp
  have go: "length (filter isGetObject (pre @ cs)) = length (filter isGetObject cs)"
    using pre by auto
  from alt rin rc obtain msg where
    f: "saved_records cs = [failedRecord task msg]"
       "length (filter isGetObject cs) = length (attempt_failures ls)"
       "\<forall>p \<in> set (butlast (attempt_failures ls)). isRetriableError e (Some (snd p))"
       "if attempt_failures ls = [] then Retries cfg < 1 \<and> None = Some msg
         else msg = snd (last (attempt_failures ls)) \<and>
              (1 + int (length (attempt_failures ls)) - 1 = Retries cfg \<or>
               \<not> isRetriableError e (Some msg))"
    by auto
  have ne: "attempt_failures ls \<noteq> []" using f(4) by auto
  with f(4) have last: "msg = snd (last (attempt_failures ls))"
    and stop: "int (length (attempt_failures ls)) = Retries cfg \<or> \<not> isRetriableError e (Some msg)"
    by auto
  have "r = failedRecord task msg" using rin f(1) by simp
  with ne nums f(2,3) last stop show ?thesis
    unfolding new_calls new_logs Let_def go by simp
qed

text \<open>
  Claim C5, as the code has it. A run of \<open>Process\<close> that counts a success saves exactly
  one record: status \<open>completed\<close>, the task's bucket, key, size and ETag, and \<open>Attempts\<close>
  equal to 0, whatever the number of attempts used (the failed attempts logged, plus the
  one that succeeded).
\<close>

theorem success_record:
  assumes run: "Process e cfg task w = Return w'"
    and counted: "Metrics_objectsTotal_Inc ''success'' \<in> set (drop (length (calls w)) (calls w'))"
  shows "let cs = drop (length (calls w)) (calls w');
             fs = attempt_failures (drop (length (logs w)) (logs w'))
         in saved_records cs = [completedRecord task] \<and>
            rStatus (completedRecord task) = StatusCompleted \<and>
            Attempts (completedRecord task) = 0 \<and>
            rBucket (completedRecord task) = Bucket task \<and> rKey (completedRecord task) = Key task \<and>
            rSize (completedRecord task) = Size task \<and> rETag (completedRecord task) = ETag task \<and>
            length (filter isGetObject cs) = length fs + 1 \<and>
            int (length fs) + 1 \<le> Retries cfg"
proof -
  from Process_outcome [OF run] counted obtain pre w0 where
    pre: "pre = [Checkpoint_GetTask (Bucket task) (Key task)] \<or>
          pre = [Checkpoint_GetTask (Bucket task) (Key task), Dst_HeadObject (Bucket task) (Key task)]"
    and w0: "calls w0 = calls w @ pre" "logs w0 = logs w"
    and loop: "retryLoop e cfg task (time_Now e (calls w)) 1 None w0 = Return w'"
    by auto
  from retryLoop_outcome [OF loop] obtain cs ls where
    c: "calls w' = calls w0 @ cs" and l: "logs w' = logs w0 @ ls"
    and alt: "(saved_records cs = [completedRecord task] \<and>
        Metrics_objectsTotal_Inc ''success'' \<in> set cs \<and>
        Metrics_objectsTotal_Inc ''failed'' \<notin> set cs \<and>
        length (filter isGetObject cs) = length (attempt_failures ls) + 1 \<and>
        1 + int (length (attempt_failures ls)) \<le> Retries cfg \<and>
        (\<forall>p \<in> set (attempt_failures ls). isRetriableError e (Some (snd p))))
       \<or>
       (\<exists>msg. saved_records cs = [failedRecord task msg] \<and>
        Metrics_objectsTotal_Inc ''failed'' \<in> set cs \<and>
        Metrics_objectsTotal_Inc ''success'' \<notin> set cs \<and>
        length (filter isGetObject cs) = length (attempt_failures ls) \<and>
        (\<forall>p \<in> set (butlast (attempt_failures ls)). isRetriableError e (Some (snd p))) \<and>
        (if attempt_failures ls = [] then Retries cfg < 1 \<and> None = Some msg
         else msg = snd (last (attempt_failures ls)) \<and>
              (1 + int (length (attempt_failures ls)) - 1 = Retries cfg \<or>
               \<not> isRetriableError e (Some msg))))"
    by blast
  have new_calls: "drop (length (calls w)) (calls w') = pre @ cs" using c w0 by simp
  have new_logs: "drop (length (logs w)) (logs w') = ls" using l w0 by simp
  have "Metrics_objectsTotal_Inc ''success'' \<in> set cs"
    using counted pre unfolding new_calls by auto
  with alt have s: "saved_records cs = [completedRecord task]"
    "length (filter isGetObject cs) = length (attempt_failures ls) + 1"
    "1 + int (length (attempt_failures ls)) \<le> Retries cfg"
    by auto
  have sr: "saved_records (pre @ cs) = saved_records cs"
    using pre by (auto simp add: saved_records_Cons)
  have go: "length (filter isGetObject (pre @ cs)) = length (filter isGetObject cs)"
    using pre by auto
  show ?thesis
    unfolding new_calls new_logs Let_def sr go using s
    by (simp add: completedRecord_def)
qed

subsection \<open>The scenarios of the retry loop, evaluated\<close>

lemma Return_final_world: "\<not> panicked r \<Longrightarrow> r = Return (final_world r)"
  by (cases r) simp_all

lemmas run_defs =
  Process_def Let_def objectExistsAndMatches_def retryLoop.simps processTask_def uploadSingle_def
  finishSuccess_def finishFailed_def markCompleted_def markFailed_def isRetriableError_def
  IncSuccessWithBytes_def IncFailed_def IncSkippedWithBytes_def AddBytes_def ObserveDuration_def
  emit_def logger_def calculateBackoff_def ToLower_ascii_def word_sless_alt putOptions_def

lemma source_down_run:
  "Process source_down (default_Config\<lparr>Retries := 2\<rparr>) task_S1 world0 = Return
     (final_world (Process source_down (default_Config\<lparr>Retries := 2\<rparr>) task_S1 world0))"
  by (rule Return_final_world) (simp add: run_defs source_down_def)

lemma source_down_calls:
  "calls (final_world (Process source_down (default_Config\<lparr>Retries := 2\<rparr>) task_S1 world0)) =
     [Checkpoint_GetTask ''b'' ''k'', Dst_HeadObject ''b'' ''k'',
      Src_GetObject ''b'' ''k'', Time_Sleep 500000000, Src_GetObject ''b'' ''k'',
      Checkpoint_SaveTask (failedRecord task_S1 ''failed to get source object: connection reset by peer''),
      Metrics_objectsTotal_Inc ''failed'']"
  by (simp add: run_defs source_down_def)

lemma source_down_logs:
  "attempt_failures (logs (final_world (Process source_down (default_Config\<lparr>Retries := 2\<rparr>) task_S1 world0))) =
     [(1, ''failed to get source object: connection reset by peer''),
      (2, ''failed to get source object: connection reset by peer'')]"
  by (simp add: run_defs source_down_def attempt_failures_Cons)

theorem retry_law_witness:
  "Checkpoint_SaveTask (failedRecord task_S1 ''failed to get source object: connection reset by peer'')
     \<in> set (calls (final_world (Process source_down (default_Config\<lparr>Retries := 2\<rparr>) task_S1 world0))) \<and>
   rStatus (failedRecord task_S1 ''failed to get source object: connection reset by peer'') = StatusFailed \<and>
   isRetriableError source_down (Some ''failed to get source object: connection reset by peer'') \<and>
   (let cs = calls (final_world (Process source_down (default_Config\<lparr>Retries := 2\<rparr>) task_S1 world0));
        fs = attempt_failures
               (logs (final_world (Process source_down (default_Config\<lparr>Retries := 2\<rparr>) task_S1 world0)))
    in fs \<noteq> [] \<and> map fst fs = [1..int (length fs)] \<and>
       length (filter isGetObject cs) = length fs \<and>
       (\<forall>p \<in> set (butlast fs). isRetriableError source_down (Some (snd p))) \<and>
       (int (length fs) = 2 \<or> \<not> isRetriableError source_down (Some (snd (last fs)))))"
proof -
  let ?cfg = "default_Config\<lparr>Retries := 2\<rparr>"
  let ?msg = "''failed to get source object: connection reset by peer''"
  let ?w' = "final_world (Process source_down ?cfg task_S1 world0)"
  have marked: "Checkpoint_SaveTask (failedRecord task_S1 ?msg) \<in> set (drop (length (calls world0)) (calls ?w'))"
    by (simp add: source_down_calls)
  have failed: "rStatus (failedRecord task_S1 ?msg) = StatusFailed"
    by (simp add: failedRecord_def)
  have r: "isRetriableError source_down (Some ?msg)"
    by (simp add: isRetriableError_def source_down_def ToLower_ascii_def)
  have m: "Checkpoint_SaveTask (failedRecord task_S1 ?msg) \<in> set (calls ?w')"
    using marked by simp
  from retry_law [OF source_down_run marked failed]
  have "let cs = calls ?w'; fs = attempt_failures (logs ?w')
        in fs \<noteq> [] \<and> map fst fs = [1..int (length fs)] \<and>
           length (filter isGetObject cs) = length fs \<and>
           (\<forall>p \<in> set (butlast fs). isRetriableError source_down (Some (snd p))) \<and>
           (int (length fs) = 2 \<or> \<not> isRetriableError source_down (Some (snd (last fs))))"
    by (simp add: Let_def)
  with m failed r show ?thesis by blast
qed

lemma single_object_run:
  "Process (happy_env 1024) default_Config task_S1 world0 = Return
     (final_world (Process (happy_env 1024) default_Config task_S1 world0))"
  by (rule Return_final_world) (simp add: run_defs)

lemma single_object_calls:
  "calls (final_world (Process (happy_env 1024) default_Config task_S1 world0)) =
     [Checkpoint_GetTask ''b'' ''k'', Dst_HeadObject ''b'' ''k'', Src_GetObject ''b'' ''k'',
      Dst_PutObject ''b'' ''k'' 1024 \<lparr>pContentType = ''application/octet-stream'', pMetadata = []\<rparr>,
      Src_Close, Checkpoint_SaveTask (completedRecord task_S1),
      Metrics_objectsTotal_Inc ''success'', Metrics_bytesTotal_Add 1024, Metrics_duration_Observe 8]"
  by (simp add: run_defs)

text \<open>
  Scenario S1 against claim C5: one small object, transferred by the first attempt. The
  record saved, and the row it leaves in an empty store, have \<open>Attempts = 0\<close>, not 1.
\<close>

theorem success_attempts_counterexample:
  "saved_records (calls (final_world (Process (happy_env 1024) default_Config task_S1 world0))) =
     [\<lparr>rBucket = ''b'', rKey = ''k'', rSize = 1024, rETag = ''abc'', rStatus = ''completed'',
       Attempts = 0, LastError = [], UpdatedAt = 0\<rparr>] \<and>
   length (filter isGetObject
     (calls (final_world (Process (happy_env 1024) default_Config task_S1 world0)))) = 1 \<and>
   tasks_table (db (snd (SaveTask 5 (completedRecord task_S1) empty_store))) =
     [\<lparr>rBucket = ''b'', rKey = ''k'', rSize = 1024, rETag = ''abc'', rStatus = ''completed'',
       Attempts = 0, LastError = [], UpdatedAt = 5\<rparr>]"
  by (simp add: single_object_calls saved_records_Cons saved_record_def completedRecord_def
      StatusCompleted_def
      SaveTask_def empty_store_def db_op_def retryOnBusy_def maxRetries_def
      saveTaskWithTransaction_def Let_def)

lemma flaky_source_run:
  "Process flaky_source default_Config task_S1 world0 = Return
     (final_world (Process flaky_source default_Config task_S1 world0))"
  by (rule Return_final_world) (simp add: run_defs flaky_source_def)

lemma flaky_source_calls:
  "calls (final_world (Process flaky_source default_Config task_S1 world0)) =
     [Checkpoint_GetTask ''b'' ''k'', Dst_HeadObject ''b'' ''k'',
      Src_GetObject ''b'' ''k'', Time_Sleep 500000000,
      Src_GetObject ''b'' ''k'', Time_Sleep 1000000000,
      Src_GetObject ''b'' ''k'',
      Dst_PutObject ''b'' ''k'' 1024 \<lparr>pContentType = ''application/octet-stream'', pMetadata = []\<rparr>,
      Src_Close, Checkpoint_SaveTask (completedRecord task_S1),
      Metrics_objectsTotal_Inc ''success'', Metrics_bytesTotal_Add 1024, Metrics_duration_Observe 12]"
  by (simp add: run_defs flaky_source_def)

theorem success_record_witness:
  "Metrics_objectsTotal_Inc ''success''
     \<in> set (calls (final_world (Process flaky_source default_Config task_S1 world0))) \<and>
   saved_records (calls (final_world (Process flaky_source default_Config task_S1 world0))) =
     [completedRecord task_S1] \<and>
   Attempts (completedRecord task_S1) = 0 \<and>
   length (filter isGetObject
     (calls (final_world (Process flaky_source default_Config task_S1 world0)))) = 3"
proof -
  let ?w' = "final_world (Process flaky_source default_Config task_S1 world0)"
  have counted: "Metrics_objectsTotal_Inc ''success'' \<in> set (drop (length (calls world0)) (calls ?w'))"
    by (simp add: flaky_source_calls)
  have three: "length (filter isGetObject (calls ?w')) = 3"
    by (simp add: flaky_source_calls)
  show ?thesis
    using counted three success_record [OF flaky_source_run counted]
    by (simp add: Let_def)
qed

subsection \<open>The exit code\<close>





text \<open>
  A listing that fails after it enqueued a task, with \<open>Retries = 0\<close>: when the worker has
  not come to the task, the program exits with code 1; when it has, its panic (see the
  retry bound below one) ends the program with code 2.
\<close>

lemma listing_error_and_panic:
  "fst (main_exit (happy_env 1024)
          \<lparr>args_error = None,
           merged_config = Inr (valid_config\<lparr>Migration := (Migration valid_config)\<lparr>mRetries := 0\<rparr>\<rparr>),
           logger_New = None, src_NewMinIOClient = None, dst_NewMinIOClient = None,
           NewSQLiteStore = None, listing = ([task_S1], Some ''list failed''), handled = 0\<rparr>
          world0) = 1 \<and>
   fst (main_exit (happy_env 1024)
          \<lparr>args_error = None,
           merged_config = Inr (valid_config\<lparr>Migration := (Migration valid_config)\<lparr>mRetries := 0\<rparr>\<rparr>),
           logger_New = None, src_NewMinIOClient = None, dst_NewMinIOClient = None,
           NewSQLiteStore = None, listing = ([task_S1], Some ''list failed''), handled = 1\<rparr>
          world0) = 2"
  by (simp add: main_exit_def runMigration_def Load_def validate_def app_New_def Run_def
      enqueued_def workerConfig_def valid_config_def run_defs nil_dereference_def)

subsection \<open>Multipart transfer outside the stated conditions\<close>

lemma uploadParts_short_source:
  "uploadParts (happy_env 150000000) default_Config task_S2 u 3 1 []
     \<lparr>remaining = 150000000, read_error = None\<rparr> w =
   Return (Inr [\<lparr>PartNumber = 1, cETag = ''etag''\<rparr>, \<lparr>PartNumber = 2, cETag = ''etag''\<rparr>,
                \<lparr>PartNumber = 3, cETag = ''etag''\<rparr>],
           w\<lparr>calls := calls w @ [Dst_UploadPart ''b'' ''big'' u 1 67108864,
                                  Dst_UploadPart ''b'' ''big'' u 2 67108864,
                                  Dst_UploadPart ''b'' ''big'' u 3 15782272]\<rparr>)"
  by (simp add: uploadParts.simps ps_S2 Let_def ReadFull_def word_sless_alt emit_def)

text \<open>
  Scenario S2 with a source that ends early, against claim C1: the task says 200000000
  bytes, the stream delivers 150000000. The short read of part 3 is tolerated: the part
  is uploaded with the 15782272 bytes that were read, not 65782272, and the upload is
  completed.
\<close>

theorem short_source_counterexample:
  "MultipartThreshold default_Config \<le>s Size task_S2 \<and>
   processTask (happy_env 150000000) default_Config task_S2 world0 =
     Return (None, world0\<lparr>calls :=
       [Src_GetObject ''b'' ''big'',
        Dst_NewMultipartUpload ''b'' ''big'' (putOptions task_S2),
        Dst_UploadPart ''b'' ''big'' ''upload-1'' 1 67108864,
        Dst_UploadPart ''b'' ''big'' ''upload-1'' 2 67108864,
        Dst_UploadPart ''b'' ''big'' ''upload-1'' 3 15782272,
        Dst_CompleteMultipartUpload ''b'' ''big'' ''upload-1''
          [\<lparr>PartNumber = 1, cETag = ''etag''\<rparr>, \<lparr>PartNumber = 2, cETag = ''etag''\<rparr>,
           \<lparr>PartNumber = 3, cETag = ''etag''\<rparr>],
        Src_Close]\<rparr>) \<and>
   min (sint (PartSize default_Config))
       (sint (Size task_S2) - (3 - 1) * sint (PartSize default_Config)) = 65782272"
  by (simp add: processTask_def uploadMultipart_def Let_def pc_S2 uploadParts_short_source
      word_sless_alt word_sle_eq emit_def)

lemma part_reads_cut:
  "part_read default_Config task_S2 cut_stream (Suc 0) = (67108864, None)"
  "part_read default_Config task_S2 cut_stream (Suc (Suc 0)) = (32891136, Some io_ErrUnexpectedEOF)"
  "part_read default_Config task_S2 cut_stream (Suc (Suc (Suc 0))) = (0, Some io_ErrUnexpectedEOF)"
  by (simp_all add: part_read_1 part_read_Suc ps_S2 ReadFull_def Let_def cut_stream_def)

lemma uploadParts_cut_stream:
  "uploadParts (happy_env 200000000) default_Config task_S2 u 3 1 [] cut_stream w =
   Return (Inr [\<lparr>PartNumber = 1, cETag = ''etag''\<rparr>, \<lparr>PartNumber = 2, cETag = ''etag''\<rparr>,
                \<lparr>PartNumber = 3, cETag = ''etag''\<rparr>],
           w\<lparr>calls := calls w @ [Dst_UploadPart ''b'' ''big'' u 1 67108864,
                                  Dst_UploadPart ''b'' ''big'' u 2 32891136,
                                  Dst_UploadPart ''b'' ''big'' u 3 0]\<rparr>)"
  by (simp add: uploadParts.simps ps_S2 Let_def ReadFull_def word_sless_alt emit_def cut_stream_def)

text \<open>
  Scenario S2 with a source whose connection is cut after 100000000 of the 200000000
  bytes, against claim C2. The read of part 2 fails with \<open>io.ErrUnexpectedEOF\<close> after
  32891136 bytes, the read of part 3 fails with no byte at all; both parts are uploaded
  with what was read, the upload is not aborted but completed, and \<open>uploadMultipart\<close>
  returns no error.
\<close>

theorem cut_stream_counterexample:
  "part_read default_Config task_S2 cut_stream (Suc (Suc 0)) = (32891136, Some io_ErrUnexpectedEOF) \<and>
   part_read default_Config task_S2 cut_stream (Suc (Suc (Suc 0))) = (0, Some io_ErrUnexpectedEOF) \<and>
   uploadMultipart (happy_env 200000000) default_Config task_S2 cut_stream world0 =
     Return (None, world0\<lparr>calls :=
       [Dst_NewMultipartUpload ''b'' ''big'' (putOptions task_S2),
        Dst_UploadPart ''b'' ''big'' ''upload-1'' 1 67108864,
        Dst_UploadPart ''b'' ''big'' ''upload-1'' 2 32891136,
        Dst_UploadPart ''b'' ''big'' ''upload-1'' 3 0,
        Dst_CompleteMultipartUpload ''b'' ''big'' ''upload-1''
          [\<lparr>PartNumber = 1, cETag = ''etag''\<rparr>, \<lparr>PartNumber = 2, cETag = ''etag''\<rparr>,
           \<lparr>PartNumber = 3, cETag = ''etag''\<rparr>]]\<rparr>)"
  by (simp add: part_reads_cut uploadMultipart_def Let_def pc_S2 uploadParts_cut_stream emit_def)

lemma exponent_unique:
  assumes "0 < x" "2 powi k \<le> x" "x < 2 powi (k + 1)"
  shows "exponent x = k"
proof -
  have "k \<le> exponent x" using assms(1,2) by (rule exponent_ge)
  moreover have "exponent x < k + 1" using assms(1,3) by (rule exponent_less)
  ultimately show ?thesis by simp
qed

text \<open>
  Above \<open>2\<^sup>5\<^sup>3\<close> the float computation can lose a part: for a size of \<open>2\<^sup>6\<^sup>2 + 1\<close> and parts of
  \<open>2\<^sup>2\<^sup>3\<close> bytes, \<open>float64(size)\<close> is \<open>2\<^sup>6\<^sup>2\<close> and the part count is \<open>2\<^sup>3\<^sup>9\<close>, one less than
  \<open>\<lceil>size / part_size\<rceil>\<close>.
\<close>

lemma partCount_beyond_exact_range:
  "partCount (default_Config\<lparr>PartSize := 8388608\<rparr>) (task_S2\<lparr>Size := 4611686018427387905\<rparr>) =
     549755813888 \<and>
   \<lceil>(4611686018427387905 :: rat) / 8388608\<rceil> = 549755813889"
proof -
  let ?x = "4611686018427387905 :: rat"
  have e: "exponent ?x = 62"
    by (rule exponent_unique) simp_all
  have fl: "\<lfloor>?x / 1024\<rfloor> = 4503599627370496"
    by (simp add: floor_eq_iff)
  have r: "round_half_even (?x / 1024) = 4503599627370496"
    by (simp add: round_half_even_def Let_def fl)
  have f1: "float64 ?x = 4611686018427387904"
    using float64_pos [of ?x] by (simp add: e r)
  have f2: "float64 (8388608 :: rat) = 8388608"
    using float64_of_int [of 8388608] by simp
  have f3: "float64 (549755813888 :: rat) = 549755813888"
    using float64_of_int [of 549755813888] by simp
  have s1: "sint (4611686018427387905 :: 64 word) = 4611686018427387905" by simp
  have "partCount (default_Config\<lparr>PartSize := 8388608\<rparr>) (task_S2\<lparr>Size := 4611686018427387905\<rparr>) =
          549755813888"
    by (simp add: partCount_def s1 f1 f2 f3)
  moreover have "\<lceil>?x / 8388608\<rceil> = 549755813889"
    by (simp add: ceiling_eq_iff)
  ultimately show ?thesis by simp
qed

end
